theory Spec2Isabelle
  imports Complex_Main "HOL-Library.Sublist"
begin

section \<open>Statistics aggregator (src/lib/statistics.ts, calculateStatistics)\<close>

text \<open>
  Strings of the program are modelled as \<open>string\<close>; numbers that the program divides
  (durations, percentages) are modelled as \<open>real\<close>, counters as \<open>nat\<close>.
  Console output and the wall-clock fields (timestamp, processing time) are not part of
  the model.
\<close>

text \<open>The fields of CallData that calculateStatistics reads.\<close>

record callData =
  phone :: string
  duration :: real
  categories :: "string list"
  sentiment :: "string option"

record sentimentCounts =
  positive :: nat
  neutral :: nat
  negative :: nat

text \<open>One value of categoryMap: \<open>{count, customers, sentiment}\<close>.\<close>

record categoryAcc =
  acc_count :: nat
  customers :: "string set"
  acc_sentiment :: sentimentCounts

record categoryStat =
  category :: string
  count :: nat
  percentage :: real
  stat_sentiment :: sentimentCounts

record summaryData =
  answerRate :: real
  avgDuration :: real
  totalDuration :: real
  sentimentDistribution :: sentimentCounts
  topCategories :: "string list"

record analysisData =
  totalCalls :: nat
  categorizedCalls :: nat
  categoryStats :: "categoryStat list"
  calls :: "callData list"
  summary :: summaryData

text \<open>String.prototype.toLowerCase, on the ASCII letters.\<close>

definition toLowerChar :: "char \<Rightarrow> char" where
  "toLowerChar c =
     (if 65 \<le> (of_char c :: nat) \<and> (of_char c :: nat) \<le> 90
      then char_of ((of_char c :: nat) + 32) else c)"

definition toLowerCase :: "string \<Rightarrow> string" where
  "toLowerCase s = map toLowerChar s"

text \<open>\<open>call.sentiment?.toLowerCase() || "neutral"\<close>: a missing or empty sentiment
  reads as neutral.\<close>

definition sentimentOf :: "string option \<Rightarrow> string" where
  "sentimentOf s =
     (case s of
        None \<Rightarrow> ''neutral''
      | Some t \<Rightarrow> (if toLowerCase t = [] then ''neutral'' else toLowerCase t))"

definition tally :: "string \<Rightarrow> sentimentCounts \<Rightarrow> sentimentCounts" where
  "tally s c =
     (if s = ''positive'' then c\<lparr>positive := positive c + 1\<rparr>
      else if s = ''negative'' then c\<lparr>negative := negative c + 1\<rparr>
      else c\<lparr>neutral := neutral c + 1\<rparr>)"

definition zeroCounts :: sentimentCounts where
  "zeroCounts = \<lparr>positive = 0, neutral = 0, negative = 0\<rparr>"

text \<open>
  categoryMap is a JavaScript Map, which iterates in insertion order: an association list
  with new keys appended at the end and existing entries updated in place.
\<close>

type_synonym categoryMap = "(string \<times> categoryAcc) list"

definition mapHas :: "categoryMap \<Rightarrow> string \<Rightarrow> bool" where
  "mapHas m k = (k \<in> set (map fst m))"

definition mapSet :: "categoryMap \<Rightarrow> string \<Rightarrow> categoryAcc \<Rightarrow> categoryMap" where
  "mapSet m k v =
     (if mapHas m k then map (\<lambda>(k', v'). if k' = k then (k', v) else (k', v')) m
      else m @ [(k, v)])"

definition mapUpdate :: "categoryMap \<Rightarrow> string \<Rightarrow> (categoryAcc \<Rightarrow> categoryAcc) \<Rightarrow> categoryMap" where
  "mapUpdate m k f = map (\<lambda>(k', v'). if k' = k then (k', f v') else (k', v')) m"

definition emptyAcc :: categoryAcc where
  "emptyAcc = \<lparr>acc_count = 0, customers = {}, acc_sentiment = zeroCounts\<rparr>"

text \<open>The body of the inner \<open>call.categories.forEach\<close>.\<close>

definition addCategory :: "callData \<Rightarrow> categoryMap \<Rightarrow> string \<Rightarrow> categoryMap" where
  "addCategory call m cat =
     (let m1 = (if \<not> mapHas m cat then mapSet m cat emptyAcc else m)
      in mapUpdate m1 cat
           (\<lambda>stat. stat\<lparr>acc_count := acc_count stat + 1,
                         customers := insert (phone call) (customers stat),
                         acc_sentiment := tally (sentimentOf (sentiment call)) (acc_sentiment stat)\<rparr>))"

definition addCall :: "categoryMap \<Rightarrow> callData \<Rightarrow> categoryMap" where
  "addCall m call = foldl (addCategory call) m (categories call)"

definition scanCalls :: "callData list \<Rightarrow> categoryMap" where
  "scanCalls cs = foldl addCall [] cs"

text \<open>
  Array.prototype.sort with a comparator: a stable sort (ECMAScript 2019), here
  insertion sort, which leaves elements that compare equal in their original order.
\<close>

fun insertCmp :: "('a \<Rightarrow> 'a \<Rightarrow> int) \<Rightarrow> 'a \<Rightarrow> 'a list \<Rightarrow> 'a list" where
  "insertCmp cmp x [] = [x]"
| "insertCmp cmp x (y # ys) =
     (if cmp x y \<le> 0 then x # y # ys else y # insertCmp cmp x ys)"

definition arraySort :: "('a \<Rightarrow> 'a \<Rightarrow> int) \<Rightarrow> 'a list \<Rightarrow> 'a list" where
  "arraySort cmp xs = foldr (insertCmp cmp) xs []"

text \<open>The comparator \<open>(a, b) => b.count - a.count\<close>.\<close>

definition byCountDesc :: "categoryStat \<Rightarrow> categoryStat \<Rightarrow> int" where
  "byCountDesc a b = int (count b) - int (count a)"

definition toStat :: "nat \<Rightarrow> string \<times> categoryAcc \<Rightarrow> categoryStat" where
  "toStat n e =
     \<lparr>category = fst e,
      count = acc_count (snd e),
      percentage = (real (acc_count (snd e)) / real n) * 100,
      stat_sentiment = acc_sentiment (snd e)\<rparr>"

definition calculateStatistics :: "callData list \<Rightarrow> analysisData" where
  "calculateStatistics cs =
     (let categoryMap = scanCalls cs;
          cats = arraySort byCountDesc (map (toStat (length cs)) categoryMap);
          total = foldl (\<lambda>sum call. sum + duration call) 0 cs;
          avg = (if length cs > 0 then total / real (length cs) else 0);
          sentimentCts = foldl (\<lambda>c call. tally (sentimentOf (sentiment call)) c) zeroCounts cs;
          top = map category (take 10 cats)
      in \<lparr>totalCalls = length cs,
          categorizedCalls = length cs,
          categoryStats = cats,
          calls = cs,
          summary = \<lparr>answerRate = 100,
                     avgDuration = avg,
                     totalDuration = total,
                     sentimentDistribution = sentimentCts,
                     topCategories = top\<rparr>\<rparr>)"

section \<open>Provider calls and the retry wrapper (src/lib/statistics.ts, second module)\<close>

subsection \<open>Strings\<close>

text \<open>String.prototype.trim: the white space that fits in a \<open>char\<close>.\<close>

definition isSpace :: "char \<Rightarrow> bool" where
  "isSpace c = ((of_char c :: nat) \<in> {9, 10, 11, 12, 13, 32, 160})"

definition trim :: "string \<Rightarrow> string" where
  "trim s = rev (dropWhile isSpace (rev (dropWhile isSpace s)))"

definition startsWith :: "string \<Rightarrow> string \<Rightarrow> bool" where
  "startsWith s p = (take (length p) s = p)"

text \<open>String.prototype.includes.\<close>

fun strIncludes :: "string \<Rightarrow> string \<Rightarrow> bool" where
  "strIncludes [] p = (p = [])"
| "strIncludes (c # cs) p = (startsWith (c # cs) p \<or> strIncludes cs p)"

definition digitChar :: "nat \<Rightarrow> char" where
  "digitChar d = ''0123456789'' ! d"

text \<open>The decimal rendering of a non-negative integer in a template literal.\<close>

fun showNat :: "nat \<Rightarrow> string" where
  "showNat n = (if n < 10 then [digitChar n] else showNat (n div 10) @ [digitChar (n mod 10)])"

subsection \<open>Configuration, errors, events\<close>

datatype provider = Gemini | Groq

record modelConfig =
  provider :: provider
  model :: string

datatype severity = Info | Success | Warning | Error | Progress

record workItem =
  transcript :: string
  callReason :: "string option"
  issuesDiscussed :: "string option"

text \<open>
  What a request to the provider is built from. The prompt text is a fixed template
  around these values, so the request is modelled by the values themselves.
\<close>

datatype prompt =
  ClassifyPrompt workItem
| ReportPrompt analysisData
| SummaryPrompt analysisData

text \<open>A thrown value: \<open>error.status\<close>, \<open>error.message\<close> and
  \<open>error.errorData.error.code\<close>.\<close>

record jsError =
  status :: "nat option"
  message :: string
  errorCode :: "string option"

definition plainError :: "string \<Rightarrow> jsError" where
  "plainError msg = \<lparr>status = None, message = msg, errorCode = None\<rparr>"

text \<open>
  Everything the pipeline does to the outside, in order: a request sent to a provider,
  a \<open>setTimeout\<close> sleep in milliseconds, a call of \<open>logCallback\<close> and a call of
  \<open>onProgress\<close>. The two callbacks are taken to return normally, as the stream writer
  that the streaming route passes does (it catches what its \<open>enqueue\<close> throws; the
  other route passes no callback). Console output is not modelled; in the log texts the
  pictographs, the renderings of wall-clock times and percentages and the joined category
  names are left out.
\<close>

datatype event =
  Request provider string prompt
| Sleep nat
| Log string severity
| OnProgress nat nat

text \<open>
  The process state: the module variable \<open>currentModelConfig\<close> and the trace of events
  so far; with it, what the observer of the response stream will do: the number of
  provider requests after which it cancels the stream, if it does. Nothing in the
  pipeline reads the latter.
\<close>

record world =
  currentModelConfig :: "modelConfig option"
  events :: "event list"
  cancelAfter :: "nat option"

datatype jsonValue =
  JNull
| JBool bool
| JNumber real
| JString string
| JArray "jsonValue list"
| JObject "(string \<times> jsonValue) list"

text \<open>The body of an HTTP response of the chat-completion endpoint, as far as
  callGroqAPI reads it.\<close>

record httpResponse =
  httpStatus :: nat
  statusText :: string
  errorMessage :: "string option"
  errorDataCode :: "string option"
  content :: "string option"

text \<open>
  The outside world: the two API keys of the environment, the reply of each provider to
  the n-th request of the run (an exception of the transport, or a response), and
  \<open>JSON.parse\<close> (\<open>None\<close> when it throws).
\<close>

record backend =
  groqApiKey :: string
  geminiApiKey :: string
  fetchGroq :: "nat \<Rightarrow> string \<Rightarrow> prompt \<Rightarrow> jsError + httpResponse"
  generateContent :: "nat \<Rightarrow> string \<Rightarrow> prompt \<Rightarrow> jsError + string"
  jsonParse :: "string \<Rightarrow> jsonValue option"

fun isRequest :: "event \<Rightarrow> bool" where
  "isRequest (Request p m q) = True"
| "isRequest e = False"

definition requestCount :: "world \<Rightarrow> nat" where
  "requestCount w = length (filter isRequest (events w))"


fun delaysOf :: "event list \<Rightarrow> nat list" where
  "delaysOf [] = []"
| "delaysOf (Sleep d # es) = d # delaysOf es"
| "delaysOf (e # es) = delaysOf es"

definition emit :: "string \<Rightarrow> severity \<Rightarrow> world \<Rightarrow> world" where
  "emit msg sev w = w\<lparr>events := events w @ [Log msg sev]\<rparr>"

definition sleep :: "nat \<Rightarrow> world \<Rightarrow> world" where
  "sleep ms w = w\<lparr>events := events w @ [Sleep ms]\<rparr>"


definition getModelConfig :: "world \<Rightarrow> modelConfig" where
  "getModelConfig w =
     (case currentModelConfig w of
        None \<Rightarrow> \<lparr>provider = Groq, model = ''llama-3.3-70b-versatile''\<rparr>
      | Some config \<Rightarrow> config)"

definition providerName :: "provider \<Rightarrow> string" where
  "providerName p = (case p of Gemini \<Rightarrow> ''gemini'' | Groq \<Rightarrow> ''groq'')"

definition responseOk :: "httpResponse \<Rightarrow> bool" where
  "responseOk r = (200 \<le> httpStatus r \<and> httpStatus r \<le> 299)"

definition orElse :: "string option \<Rightarrow> string \<Rightarrow> string" where
  "orElse v d = (case v of None \<Rightarrow> d | Some s \<Rightarrow> (if s = [] then d else s))"

definition callGroqAPI :: "backend \<Rightarrow> prompt \<Rightarrow> string \<Rightarrow> world \<Rightarrow> (jsError + string) \<times> world" where
  "callGroqAPI env q mdl w =
     (if groqApiKey env = []
      then (Inl (plainError ''GROQ_API_KEY is not set. Please set it in your environment variables.''), w)
      else
        let w1 = w\<lparr>events := events w @ [Request Groq mdl q]\<rparr>
        in case fetchGroq env (requestCount w) mdl q of
             Inl e \<Rightarrow> (Inl e, w1)
           | Inr response \<Rightarrow>
               if \<not> responseOk response
               then (Inl \<lparr>status = Some (httpStatus response),
                          message = orElse (errorMessage response)
                            (''HTTP '' @ showNat (httpStatus response) @ '': '' @ statusText response),
                          errorCode = errorDataCode response\<rparr>, w1)
               else (Inr (orElse (content response) []), w1))"

definition callGeminiAPI :: "backend \<Rightarrow> prompt \<Rightarrow> string \<Rightarrow> world \<Rightarrow> (jsError + string) \<times> world" where
  "callGeminiAPI env q mdl w =
     (if geminiApiKey env = []
      then (Inl (plainError ''GEMINI_API_KEY is not set. Please set it in your environment variables.''), w)
      else
        let w1 = w\<lparr>events := events w @ [Request Gemini mdl q]\<rparr>
        in (generateContent env (requestCount w) mdl q, w1))"

text \<open>The dispatch \<open>if (config.provider === "gemini") ... else ...\<close> that each caller
  of the providers repeats.\<close>

definition callProvider :: "backend \<Rightarrow> modelConfig \<Rightarrow> prompt \<Rightarrow> world \<Rightarrow> (jsError + string) \<times> world" where
  "callProvider env config q w =
     (if provider config = Gemini then callGeminiAPI env q (model config) w
      else callGroqAPI env q (model config) w)"

subsection \<open>retryWithBackoff\<close>

definition attemptText :: "nat \<Rightarrow> nat \<Rightarrow> nat \<Rightarrow> string" where
  "attemptText retryDelay retryCount maxRetries =
     showNat (retryDelay div 1000) @ '' seconds... (Attempt '' @ showNat (retryCount + 1) @ ''/''
       @ showNat maxRetries @ '')''"

definition contextTooLong :: "jsError \<Rightarrow> bool" where
  "contextTooLong error =
     (status error = Some 400 \<and>
      (errorCode error = Some ''context_length_exceeded'' \<or>
       strIncludes (message error) ''length'' \<or>
       strIncludes (message error) ''context''))"

definition serverError :: "jsError \<Rightarrow> bool" where
  "serverError error = (case status error of None \<Rightarrow> False | Some s \<Rightarrow> 500 \<le> s \<and> s < 600)"

text \<open>
  The recursion of the source, on \<open>retryCount\<close>. The operation \<open>fn\<close> is a state
  transformer that returns a value or the error it throws.
\<close>

function retryWithBackoff ::
  "(world \<Rightarrow> (jsError + 'a) \<times> world) \<Rightarrow> nat \<Rightarrow> nat \<Rightarrow> world \<Rightarrow> (jsError + 'a) \<times> world" where
  "retryWithBackoff fn maxRetries retryCount w =
     (case fn w of
        (Inr v, w1) \<Rightarrow> (Inr v, w1)
      | (Inl error, w1) \<Rightarrow>
          if status error = Some 429 \<and> retryCount < maxRetries then
            let retryDelay = min (5000 * 2 ^ retryCount) 90000;
                w2 = emit (''Rate limit hit. Retrying after ''
                           @ attemptText retryDelay retryCount maxRetries) Warning w1
            in retryWithBackoff fn maxRetries (retryCount + 1) (sleep retryDelay w2)
          else if status error = Some 503 \<and> retryCount < maxRetries then
            let retryDelay = min (10000 * 2 ^ retryCount) 180000;
                w2 = emit (''Service overloaded (503). Retrying after ''
                           @ attemptText retryDelay retryCount maxRetries) Warning w1;
                w3 = emit ''   Tip: The API is currently busy. Waiting before retry...'' Info w2
            in retryWithBackoff fn maxRetries (retryCount + 1) (sleep retryDelay w3)
          else if contextTooLong error then
            (Inl (plainError ''The data is too large to process. Please try with fewer calls or contact support.''),
             emit ''Context length exceeded. Prompt is too long for the model.'' Error w1)
          else if serverError error \<and> retryCount < maxRetries then
            let retryDelay = min (15000 * 2 ^ retryCount) 120000;
                w2 = emit (''Server error ('' @ showNat (the (status error)) @ ''). Retrying after ''
                           @ attemptText retryDelay retryCount maxRetries) Warning w1
            in retryWithBackoff fn maxRetries (retryCount + 1) (sleep retryDelay w2)
          else (Inl error, w1))"
  by pat_completeness auto
termination
proof (relation "measure (\<lambda>(fn, maxRetries, retryCount, w). maxRetries - retryCount)", goal_cases)
  case 1
  show ?case by simp
next
  case (2 fn maxRetries retryCount w x1 w1 error x)
  then have "retryCount < maxRetries" by blast
  then show ?case by simp
next
  case (3 fn maxRetries retryCount w x1 w1 error x)
  then have "retryCount < maxRetries" by blast
  then show ?case by simp
next
  case (4 fn maxRetries retryCount w x1 w1 error x)
  then have "retryCount < maxRetries" by blast
  then show ?case by simp
qed

subsection \<open>categorizeCall\<close>

record categorizationResult =
  r_categories :: "jsonValue list"
  r_sentiment :: string
  r_summary :: string

definition dropNewline :: "string \<Rightarrow> string" where
  "dropNewline s = (case s of [] \<Rightarrow> [] | c # cs \<Rightarrow> (if c = CHR 0x0A then cs else c # cs))"

text \<open>\<open>s.replace(/pat\n?/g, "")\<close> for a literal, non-empty \<open>pat\<close>: every occurrence,
  scanning from the left, goes together with one line feed that follows it.\<close>

function removeFence :: "string \<Rightarrow> string \<Rightarrow> string" where
  "removeFence pat [] = []"
| "removeFence pat (c # cs) =
     (if pat \<noteq> [] \<and> startsWith (c # cs) pat
      then removeFence pat (dropNewline (drop (length pat) (c # cs)))
      else c # removeFence pat cs)"
  by pat_completeness auto
termination
proof (relation "measure (\<lambda>(pat, s). length s)", goal_cases)
  case 1
  show ?case by simp
next
  case (2 pat c cs)
  then have "pat \<noteq> []" by blast
  then have "length (drop (length pat) (c # cs)) < length (c # cs)" by (cases pat) simp_all
  moreover have "length (dropNewline s) \<le> length s" for s
    by (simp add: dropNewline_def split: list.splits)
  ultimately show ?case
    by (metis (no_types, lifting) case_prod_conv in_measure le_less_trans)
next
  case (3 pat c cs)
  show ?case by simp
qed

definition fenceJson :: string where
  "fenceJson = [CHR 0x60, CHR 0x60, CHR 0x60] @ ''json''"

definition fence :: string where
  "fence = [CHR 0x60, CHR 0x60, CHR 0x60]"

text \<open>\<open>jsonText.match(/\{[\s\S]*\}/)\<close>: from the first opening brace to the last closing
  brace after it.\<close>

definition jsonMatch :: "string \<Rightarrow> string option" where
  "jsonMatch s =
     (case dropWhile (\<lambda>c. c \<noteq> CHR ''{'') s of
        [] \<Rightarrow> None
      | c # body \<Rightarrow>
          (case dropWhile (\<lambda>c. c \<noteq> CHR ''}'') (rev body) of
             [] \<Rightarrow> None
           | d # ds \<Rightarrow> Some (CHR ''{'' # rev (d # ds))))"

definition cleanResponse :: "string \<Rightarrow> string" where
  "cleanResponse text = trim (removeFence fence (removeFence fenceJson (trim text)))"

text \<open>The defaulting of the three fields of the parsed object.\<close>

definition categoriesOf :: "(string \<times> jsonValue) list \<Rightarrow> jsonValue list" where
  "categoriesOf props =
     (case map_of props ''categories'' of
        Some (JArray xs) \<Rightarrow> (if xs = [] then [JString ''Unknown''] else xs)
      | _ \<Rightarrow> [JString ''Unknown''])"

definition sentimentField :: "(string \<times> jsonValue) list \<Rightarrow> string" where
  "sentimentField props =
     (case map_of props ''sentiment'' of
        Some (JString s) \<Rightarrow> (if s \<in> {''positive'', ''neutral'', ''negative''} then s else ''neutral'')
      | _ \<Rightarrow> ''neutral'')"

definition summaryOf :: "(string \<times> jsonValue) list \<Rightarrow> string" where
  "summaryOf props =
     (case map_of props ''summary'' of
        Some (JString s) \<Rightarrow> (if s = [] then ''No summary available'' else s)
      | _ \<Rightarrow> ''No summary available'')"

text \<open>
  The arrow function that categorizeCall hands to retryWithBackoff: one attempt. The
  text handed to \<open>JSON.parse\<close> begins with an opening brace, so a value that parses is
  an object; the last case is there to make the function total.
\<close>

definition classifyOnce :: "backend \<Rightarrow> workItem \<Rightarrow> world \<Rightarrow> (jsError + categorizationResult) \<times> world" where
  "classifyOnce env item w =
     (let config = getModelConfig w;
          pn = providerName (provider config);
          w1 = emit (''Analyzing call transcript ('' @ showNat (length (transcript item))
                     @ '' characters) with '' @ pn @ ''/'' @ model config @ ''...'') Info w
      in case callProvider env config (ClassifyPrompt item) w1 of
           (Inl e, w2) \<Rightarrow> (Inl e, w2)
         | (Inr text, w2) \<Rightarrow>
             (case jsonMatch (cleanResponse text) of
                None \<Rightarrow>
                  (Inl (plainError (''No JSON found in '' @ pn @ '' response'')),
                   emit (''Response: '' @ take 200 text) Error
                     (emit (''Failed to extract JSON from '' @ pn @ '' response'') Error w2))
              | Some m \<Rightarrow>
                  (case jsonParse env m of
                     None \<Rightarrow>
                       (Inl (plainError (''Invalid JSON in '' @ pn @ '' response'')),
                        emit (''JSON text: '' @ take 200 m) Error
                          (emit (''Failed to parse JSON from '' @ pn @ '' response'') Error w2))
                   | Some (JObject props) \<Rightarrow>
                       (Inr \<lparr>r_categories = categoriesOf props,
                              r_sentiment = sentimentField props,
                              r_summary = summaryOf props\<rparr>,
                        emit (''Call analyzed: '' @ showNat (length (categoriesOf props))
                              @ '' categories, sentiment: '' @ sentimentField props) Success w2)
                   | Some other \<Rightarrow>
                       (Inl (plainError ''TypeError''), w2))))"

definition categorizeCall :: "backend \<Rightarrow> workItem \<Rightarrow> world \<Rightarrow> (jsError + categorizationResult) \<times> world" where
  "categorizeCall env item w = retryWithBackoff (classifyOnce env item) 5 0 w"

subsection \<open>batchCategorizeCallsWithProgress\<close>

definition uncategorized :: string where
  "uncategorized = ''UNCATEGORIZED - API ERROR''"

definition fallbackResult :: "jsError \<Rightarrow> categorizationResult" where
  "fallbackResult error =
     \<lparr>r_categories = [JString uncategorized],
      r_sentiment = ''neutral'',
      r_summary = ''Failed to analyze: ''
         @ (if message error = [] then ''Unknown error'' else message error)\<rparr>"

text \<open>\<open>error?.status === 429 && error.message?.includes("exceeded")\<close>.\<close>

definition fatalRateLimit :: "jsError \<Rightarrow> bool" where
  "fatalRateLimit error = (status error = Some 429 \<and> strIncludes (message error) ''exceeded'')"

text \<open>\<open>if (onProgress) onProgress(current, total)\<close>; the flag says whether the callback
  was passed.\<close>

definition notify :: "bool \<Rightarrow> nat \<Rightarrow> nat \<Rightarrow> world \<Rightarrow> world" where
  "notify onProgress current n w =
     (if onProgress then w\<lparr>events := events w @ [OnProgress current n]\<rparr> else w)"

definition progressMsg :: "nat \<Rightarrow> nat \<Rightarrow> string" where
  "progressMsg i n = ''Processing call '' @ showNat (i + 1) @ ''/'' @ showNat n"

text \<open>
  \<open>Array.prototype.join\<close> turns each element into a string, going into nested arrays, and
  throws a TypeError on an object that cannot be converted: a parsed JSON object with a
  property of its own named \<open>toString\<close>, whose value is never a function. \<open>null\<close>
  becomes the empty string and every other object \<open>[object Object]\<close>.
\<close>

fun toStringThrows :: "jsonValue \<Rightarrow> bool" where
  "toStringThrows JNull = False"
| "toStringThrows (JBool b) = False"
| "toStringThrows (JNumber x) = False"
| "toStringThrows (JString s) = False"
| "toStringThrows (JArray xs) = list_ex toStringThrows xs"
| "toStringThrows (JObject props) = (''toString'' \<in> set (map fst props))"

definition joinThrows :: "jsonValue list \<Rightarrow> bool" where
  "joinThrows xs = list_ex toStringThrows xs"

definition joinError :: jsError where
  "joinError = plainError ''Cannot convert object to primitive value''"

text \<open>
  The \<open>catch\<close> block of the loop body, entered with the error caught and with the result
  list and the state as they are at the throw: the new result list, or the error that the
  block throws.
\<close>

definition catchBlock ::
  "nat \<Rightarrow> bool \<Rightarrow> nat \<Rightarrow> categorizationResult list \<Rightarrow> jsError \<Rightarrow> world
   \<Rightarrow> (jsError + categorizationResult list) \<times> world" where
  "catchBlock n onProgress i results error w2 =
     (let w3 = emit (''   Error processing call '' @ showNat (i + 1) @ '': '' @ message error)
                 Error w2;
          w4 = emit ''   Using fallback categorization for this call...'' Warning w3;
          results1 = results @ [fallbackResult error];
          w5 = emit (''   Call '' @ showNat (i + 1) @ '' marked as uncategorized due to error'')
                 Warning w4;
          w6 = notify onProgress (i + 1) n w5
      in if fatalRateLimit error then
           (Inl (plainError (''Rate limit exceeded after retries. Processed ''
                   @ showNat (length results1) @ ''/'' @ showNat n @ '' calls. ''
                   @ message error)),
            emit (''   Successfully processed '' @ showNat (length results1)
                  @ '' calls before error.'') Info
              (emit ''Critical rate limit error. Stopping batch processing.'' Error w6))
         else
           (Inr results1,
            if i < n - 1
            then sleep 10000 (emit ''   Waiting 10s before continuing to next call...'' Info w6)
            else w6))"

text \<open>
  One pass through the body of the \<open>for\<close> loop, at index \<open>i\<close>: the new result list, or
  the error that the body throws. The \<open>try\<close> block goes on after \<open>results.push(result)\<close>:
  when the join of the category names throws there, the \<open>catch\<close> block runs with the
  result already in the list.
\<close>

definition batchStep ::
  "backend \<Rightarrow> workItem list \<Rightarrow> bool \<Rightarrow> nat \<Rightarrow> categorizationResult list \<Rightarrow> world
   \<Rightarrow> (jsError + categorizationResult list) \<times> world" where
  "batchStep env items onProgress i results w =
     (let n = length items;
          call = items ! i;
          w1 = emit (progressMsg i n) Progress w
      in case categorizeCall env call w1 of
           (Inr result, w2) \<Rightarrow>
             let results1 = results @ [result];
                 w3 = emit (''   Call '' @ showNat (i + 1) @ '' processed'') Success w2
             in if joinThrows (r_categories result)
                then catchBlock n onProgress i results1 joinError w3
                else
                  let w4 = emit ''   Categories'' Info w3;
                      w5 = emit (''   Sentiment: '' @ r_sentiment result) Info w4;
                      w6 = notify onProgress (i + 1) n w5;
                      w7 = (if i < n - 1
                            then emit ''   Estimated time remaining'' Info
                                   (emit (''   Progress: '' @ showNat (i + 1) @ ''/'' @ showNat n
                                          @ '' completed'') Info
                                      (emit ''   Waiting 2.5s before next call...'' Info w6))
                            else w6);
                      w8 = (if i < n - 1 then sleep 2500 w7 else w7)
                  in (Inr results1, w8)
         | (Inl error, w2) \<Rightarrow> catchBlock n onProgress i results error w2)"

function batchLoop ::
  "backend \<Rightarrow> workItem list \<Rightarrow> bool \<Rightarrow> nat \<Rightarrow> categorizationResult list \<Rightarrow> world
   \<Rightarrow> (jsError + categorizationResult list) \<times> world" where
  "batchLoop env items onProgress i results w =
     (if i < length items
      then (case batchStep env items onProgress i results w of
              (Inl e, w1) \<Rightarrow> (Inl e, w1)
            | (Inr results1, w1) \<Rightarrow> batchLoop env items onProgress (i + 1) results1 w1)
      else (Inr results, w))"
  by pat_completeness auto
termination
  by (relation "measure (\<lambda>(env, items, onProgress, i, results, w). length items - i)") simp_all

definition batchCategorizeCallsWithProgress ::
  "backend \<Rightarrow> workItem list \<Rightarrow> bool \<Rightarrow> world
   \<Rightarrow> (jsError + categorizationResult list) \<times> world" where
  "batchCategorizeCallsWithProgress env items onProgress w =
     (let w1 = emit ''Starting batch categorization process...'' Info w;
          w2 = emit (''Total calls to process: '' @ showNat (length items)) Info w1;
          w3 = emit ''Estimated time (with rate limiting)'' Info w2
      in case batchLoop env items onProgress 0 [] w3 of
           (Inl e, w4) \<Rightarrow> (Inl e, w4)
         | (Inr results, w4) \<Rightarrow>
             let successCount =
                   length (filter (\<lambda>r. JString uncategorized \<notin> set (r_categories r)) results);
                 failureCount = length results - successCount;
                 w5 = emit ''Batch processing complete!'' Success w4;
                 w6 = emit (''Successfully processed '' @ showNat successCount @ ''/''
                            @ showNat (length items) @ '' calls'') Success w5;
                 w7 = (if failureCount > 0
                       then emit (showNat failureCount
                                  @ '' call(s) failed and were marked as uncategorized'') Warning w6
                       else w6)
             in (Inr results, emit ''Total time'' Info w7))"

subsection \<open>The report generators\<close>




section \<open>The stream consumer (src/components/FileUpload.tsx, handleAnalyze)\<close>

text \<open>Property access \<open>data.name\<close> on a parsed value that is not null: \<open>None\<close> is
  \<open>undefined\<close>.\<close>

definition getProp :: "jsonValue \<Rightarrow> string \<Rightarrow> jsonValue option" where
  "getProp v name = (case v of JObject props \<Rightarrow> map_of props name | _ \<Rightarrow> None)"

text \<open>Truthiness of a value read from a parsed frame.\<close>

definition truthy :: "jsonValue option \<Rightarrow> bool" where
  "truthy v =
     (case v of
        None \<Rightarrow> False
      | Some JNull \<Rightarrow> False
      | Some (JBool b) \<Rightarrow> b
      | Some (JNumber x) \<Rightarrow> x \<noteq> 0
      | Some (JString s) \<Rightarrow> s \<noteq> []
      | Some (JArray xs) \<Rightarrow> True
      | Some (JObject props) \<Rightarrow> True)"

record logEntry =
  le_message :: jsonValue
  le_type :: jsonValue

text \<open>The variables of handleAnalyze that the read loop changes: \<open>buffer\<close>,
  \<open>result\<close> and the \<open>logs\<close> state.\<close>

record consumer =
  buffer :: string
  result :: "jsonValue option"
  logs :: "logEntry list"

text \<open>
  handleStreamData: the value it throws, if any, and the state it leaves. On
  \<open>null\<close> the first property access throws a TypeError.
\<close>

definition handleStreamData :: "jsonValue \<Rightarrow> consumer \<Rightarrow> jsonValue option \<times> consumer" where
  "handleStreamData data st =
     (if data = JNull then (Some (JString ''TypeError''), st)
      else
        let st1 = (if truthy (getProp data ''message'')
                   then st\<lparr>logs := logs st @
                          [\<lparr>le_message = the (getProp data ''message''),
                            le_type = (if truthy (getProp data ''type'') then the (getProp data ''type'')
                                       else JString ''info'')\<rparr>]\<rparr>
                   else st)
        in if getProp data ''success'' \<noteq> None
           then (let st2 = st1\<lparr>result := Some data\<rparr>
                 in if truthy (getProp data ''error'') then (getProp data ''error'', st2)
                    else (None, st2))
           else if truthy (getProp data ''error'') then (getProp data ''error'', st1)
           else (None, st1))"

text \<open>
  The body of \<open>for (const line of lines)\<close>, the same in the loop and in the flush at
  the end of the stream: whatever \<open>JSON.parse\<close> or handleStreamData throws is caught and
  only written to the console.
\<close>

definition processLine :: "(string \<Rightarrow> jsonValue option) \<Rightarrow> consumer \<Rightarrow> string \<Rightarrow> consumer" where
  "processLine parse st line =
     (let trimmedLine = trim line
      in if startsWith trimmedLine ''data: ''
         then (let jsonStr = trim (drop 6 trimmedLine)
               in if jsonStr \<noteq> []
                  then (case parse jsonStr of
                          None \<Rightarrow> st
                        | Some data \<Rightarrow> snd (handleStreamData data st))
                  else st)
         else st)"

text \<open>\<open>s.split(d)\<close> for a one-character separator: never empty.\<close>

fun splitOn :: "char \<Rightarrow> string \<Rightarrow> string list" where
  "splitOn d [] = [[]]"
| "splitOn d (c # cs) =
     (if c = d then [] # splitOn d cs
      else (case splitOn d cs of
              [] \<Rightarrow> [[c]]
            | x # xs \<Rightarrow> (c # x) # xs))"

definition newline :: char where
  "newline = CHR 0x0A"

text \<open>What one \<open>reader.read()\<close> gives: a decoded chunk, the end of the stream, or a
  rejection with the name and the message of the error.\<close>

datatype readResult = Chunk string | Done | ReadFailed string string

text \<open>How the read loop ends: it ran to the end of the stream, it left at one of the two
  abort checks, \<open>read\<close> threw, or the input modelled so far is used up and \<open>read\<close> is
  still pending.\<close>

datatype outcome =
  Completed consumer
| Stopped consumer
| Thrown string string consumer
| Waiting consumer

text \<open>
  The \<open>while (true)\<close> loop. Each pass is given what the abort signal shows before the
  read, what the read returns and what the signal shows after it.
\<close>

fun streamLoop ::
  "(string \<Rightarrow> jsonValue option) \<Rightarrow> (bool \<times> readResult \<times> bool) list \<Rightarrow> consumer \<Rightarrow> outcome" where
  "streamLoop parse [] st = Waiting st"
| "streamLoop parse ((abortedBefore, r, abortedAfter) # rest) st =
     (if abortedBefore then Stopped st
      else (case r of
              ReadFailed name msg \<Rightarrow> Thrown name msg st
            | Done \<Rightarrow>
                if abortedAfter then Stopped st
                else Completed
                       (if trim (buffer st) \<noteq> []
                        then foldl (processLine parse) st (splitOn newline (buffer st))
                        else st)
            | Chunk chunk \<Rightarrow>
                if abortedAfter then Stopped st
                else (let lines = splitOn newline (buffer st @ chunk);
                          st1 = st\<lparr>buffer := last lines\<rparr>
                      in streamLoop parse rest (foldl (processLine parse) st1 (butlast lines)))))"





text \<open>The state in which handleAnalyze enters the loop.\<close>

definition initialConsumer :: consumer where
  "initialConsumer = \<lparr>buffer = [], result = None, logs = []\<rparr>"

section \<open>Notions used to state the properties\<close>

text \<open>The position of the first occurrence of \<open>x\<close> in \<open>xs\<close>.\<close>

fun firstIndex :: "'a \<Rightarrow> 'a list \<Rightarrow> nat" where
  "firstIndex x [] = 0"
| "firstIndex x (y # ys) = (if x = y then 0 else Suc (firstIndex x ys))"

text \<open>All category labels of the input, in scanning order, with repetitions.\<close>

definition seenCategories :: "callData list \<Rightarrow> string list" where
  "seenCategories cs = concat (map categories cs)"

text \<open>The keys and counts of a categoryMap, and the update that addCategory makes to
  them.\<close>

definition keyCounts :: "categoryMap \<Rightarrow> (string \<times> nat) list" where
  "keyCounts m = map (\<lambda>e. (fst e, acc_count (snd e))) m"

definition addKey :: "(string \<times> nat) list \<Rightarrow> string \<Rightarrow> (string \<times> nat) list" where
  "addKey m k =
     (if k \<in> fst ` set m then map (\<lambda>(k', n). if k' = k then (k', Suc n) else (k', n)) m
      else m @ [(k, 1)])"

text \<open>After the labels \<open>xs\<close> have been scanned: the keys are the labels seen, each with
  the number of its occurrences, in the order of their first occurrences.\<close>

definition seenInv :: "string list \<Rightarrow> (string \<times> nat) list \<Rightarrow> bool" where
  "seenInv xs m =
     (fst ` set m = set xs \<and>
      list_all (\<lambda>e. snd e = count_list xs (fst e)) m \<and>
      sorted_wrt (\<lambda>a b. firstIndex (fst a) xs < firstIndex (fst b) xs) m)"

text \<open>Descending by count, ties broken by a second order \<open>T\<close>.\<close>

definition tieOrder :: "(categoryStat \<Rightarrow> categoryStat \<Rightarrow> bool) \<Rightarrow> categoryStat \<Rightarrow> categoryStat \<Rightarrow> bool" where
  "tieOrder T a b = (count b < count a \<or> (count a = count b \<and> T a b))"


text \<open>
  Two states of the process are the same run when they give the same configuration and
  hold the same trace; two outcomes agree when they return the same value in states that
  are the same run.
\<close>

definition sameRun :: "world \<Rightarrow> world \<Rightarrow> bool" where
  "sameRun w w' = (getModelConfig w = getModelConfig w' \<and> events w = events w')"


text \<open>
  A state advances another when it belongs to the same run at a later moment: its trace
  extends the trace of the other, and the configuration and the moment of cancellation are
  unchanged.
\<close>

definition advances :: "world \<Rightarrow> world \<Rightarrow> bool" where
  "advances w w' =
     (prefix (events w) (events w') \<and> currentModelConfig w' = currentModelConfig w \<and>
      cancelAfter w' = cancelAfter w)"

text \<open>The state in which the loop of batchCategorizeCallsWithProgress starts: the
  three opening log lines have been written.\<close>

definition loopStart :: "workItem list \<Rightarrow> world \<Rightarrow> world" where
  "loopStart items w =
     emit ''Estimated time (with rate limiting)'' Info
       (emit (''Total calls to process: '' @ showNat (length items)) Info
         (emit ''Starting batch categorization process...'' Info w))"


text \<open>
  The frame on a line of the stream: the value of the payload of a line that, trimmed,
  begins with \<open>data: \<close> and has a payload that parses; and what the consumer does with
  a frame.
\<close>

definition frameOf :: "(string \<Rightarrow> jsonValue option) \<Rightarrow> string \<Rightarrow> jsonValue option" where
  "frameOf parse line =
     (if startsWith (trim line) ''data: '' \<and> trim (drop 6 (trim line)) \<noteq> []
      then parse (trim (drop 6 (trim line)))
      else None)"

definition handle :: "consumer \<Rightarrow> jsonValue \<Rightarrow> consumer" where
  "handle st data = snd (handleStreamData data st)"

text \<open>The reads of a stream that delivers the given chunks and then ends, with the abort
  signal never set.\<close>

definition feed :: "string list \<Rightarrow> (bool \<times> readResult \<times> bool) list" where
  "feed chunks = map (\<lambda>c. (False, Chunk c, False)) chunks @ [(False, Done, False)]"


text \<open>The messages of the two errors that categorizeCall throws on a response without
  usable JSON.\<close>

definition noJsonMsg :: "world \<Rightarrow> string" where
  "noJsonMsg w = ''No JSON found in '' @ providerName (provider (getModelConfig w)) @ '' response''"

definition invalidJsonMsg :: "world \<Rightarrow> string" where
  "invalidJsonMsg w = ''Invalid JSON in '' @ providerName (provider (getModelConfig w)) @ '' response''"

section \<open>Examples\<close>

text \<open>A provider that answers every request with the text \<open>t\<close>; only the empty
  object parses.\<close>

definition envText :: "string \<Rightarrow> backend" where
  "envText t =
     \<lparr>groqApiKey = ''key'',
      geminiApiKey = ''key'',
      fetchGroq = (\<lambda>n m q. Inr \<lparr>httpStatus = 200, statusText = ''OK'',
                                 errorMessage = None, errorDataCode = None, content = Some t\<rparr>),
      generateContent = (\<lambda>n m q. Inr t),
      jsonParse = (\<lambda>s. if s = ''{}'' then Some (JObject []) else None)\<rparr>"

text \<open>A provider that answers every request with HTTP 429, whichever of the two is
  configured.\<close>

definition env429 :: backend where
  "env429 =
     \<lparr>groqApiKey = ''key'',
      geminiApiKey = ''key'',
      fetchGroq = (\<lambda>n m q. Inr \<lparr>httpStatus = 429, statusText = ''Too Many Requests'',
                                 errorMessage = Some ''Rate limit exceeded'',
                                 errorDataCode = None, content = None\<rparr>),
      generateContent = (\<lambda>n m q. Inl \<lparr>status = Some 429, message = ''Rate limit exceeded'',
                                       errorCode = None\<rparr>),
      jsonParse = (\<lambda>s. None)\<rparr>"

text \<open>The result of a response that is the empty object, and the error of a 429
  response whose message is \<open>Rate limit exceeded\<close>.\<close>

definition defaultResult :: categorizationResult where
  "defaultResult = \<lparr>r_categories = [JString ''Unknown''], r_sentiment = ''neutral'',
                     r_summary = ''No summary available''\<rparr>"

definition error429 :: jsError where
  "error429 = \<lparr>status = Some 429, message = ''Rate limit exceeded'', errorCode = None\<rparr>"


definition item0 :: workItem where
  "item0 = \<lparr>transcript = ''hello'', callReason = None, issuesDiscussed = None\<rparr>"

definition item1 :: workItem where
  "item1 = \<lparr>transcript = ''goodbye'', callReason = None, issuesDiscussed = None\<rparr>"

text \<open>
  The reply \<open>{"categories":[{"toString":1}]}\<close> and the object that it parses to; the
  classification that it gives.
\<close>

definition badReply :: string where
  "badReply = ''{'' @ [CHR 0x22] @ ''categories'' @ [CHR 0x22] @ '':[{'' @ [CHR 0x22]
              @ ''toString'' @ [CHR 0x22] @ '':1}]}''"

definition badObject :: jsonValue where
  "badObject = JObject [(''categories'', JArray [JObject [(''toString'', JNumber 1)]])]"

definition badResult :: categorizationResult where
  "badResult = \<lparr>r_categories = [JObject [(''toString'', JNumber 1)]], r_sentiment = ''neutral'',
                 r_summary = ''No summary available''\<rparr>"

text \<open>A provider that answers the first request of the run with the text \<open>t\<close> and every
  later one with the empty object.\<close>

definition envFirst :: "string \<Rightarrow> backend" where
  "envFirst t =
     \<lparr>groqApiKey = ''key'',
      geminiApiKey = ''key'',
      fetchGroq = (\<lambda>n m q. Inr \<lparr>httpStatus = 200, statusText = ''OK'',
                                 errorMessage = None, errorDataCode = None,
                                 content = Some (if n = 0 then t else ''{}'')\<rparr>),
      generateContent = (\<lambda>n m q. Inr (if n = 0 then t else ''{}'')),
      jsonParse = (\<lambda>s. if s = ''{}'' then Some (JObject [])
                       else if s = badReply then Some badObject else None)\<rparr>"

definition w0 :: world where
  "w0 = \<lparr>currentModelConfig = None, events = [], cancelAfter = None\<rparr>"

text \<open>A parser that knows two payloads, and a stream of three chunks: a frame split
  over two chunks, a frame that does not parse, and a last frame that no line feed ends.\<close>

definition parseExample :: "string \<Rightarrow> jsonValue option" where
  "parseExample s =
     (if s = ''{A}'' then Some (JObject [(''message'', JString ''hi'')])
      else if s = ''{B}'' then Some (JObject [(''success'', JBool True), (''data'', JString ''d'')])
      else None)"

definition exampleChunks :: "string list" where
  "exampleChunks =
     [''data: {'',
      ''A}'' @ [newline, newline] @ ''data: oops'' @ [newline] @ ''da'',
      ''ta: {B}'']"


definition exampleCalls :: "callData list" where
  "exampleCalls =
     [\<lparr>phone = ''1'', duration = 100, categories = [''A'', ''B''], sentiment = Some ''positive''\<rparr>,
      \<lparr>phone = ''2'', duration = 50, categories = [''A''], sentiment = Some ''negative''\<rparr>]"

text \<open>Two calls whose single categories tie at one occurrence each.\<close>

definition tiedCalls :: "callData list" where
  "tiedCalls =
     [\<lparr>phone = ''1'', duration = 10, categories = [''B''], sentiment = None\<rparr>,
      \<lparr>phone = ''2'', duration = 20, categories = [''A''], sentiment = None\<rparr>]"

section \<open>Properties of the statistics aggregator\<close>

declare retryWithBackoff.simps [simp del]
declare batchLoop.simps [simp del]
declare showNat.simps [simp del]

lemma firstIndex_append_in: "x \<in> set xs \<Longrightarrow> firstIndex x (xs @ ys) = firstIndex x xs"
  by (induction xs) auto

lemma firstIndex_append_notin: "x \<notin> set xs \<Longrightarrow> firstIndex x (xs @ ys) = length xs + firstIndex x ys"
  by (induction xs) auto

lemma firstIndex_less: "x \<in> set xs \<Longrightarrow> firstIndex x xs < length xs"
  by (induction xs) auto

lemma keyCounts_addCategory: "keyCounts (addCategory call m cat) = addKey (keyCounts m) cat"
  by (auto simp: keyCounts_def addCategory_def addKey_def mapHas_def mapSet_def mapUpdate_def
      emptyAcc_def Let_def image_iff split_beta)

lemma keyCounts_addCall_aux:
  "keyCounts (foldl (addCategory call) m xs) = foldl addKey (keyCounts m) xs"
  by (induction xs arbitrary: m) (simp_all add: keyCounts_addCategory)

lemma keyCounts_scan_aux:
  "keyCounts (foldl addCall m cs) = foldl addKey (keyCounts m) (concat (map categories cs))"
  by (induction cs arbitrary: m) (simp_all add: addCall_def keyCounts_addCall_aux)

lemma keyCounts_scanCalls:
  "keyCounts (scanCalls cs) = foldl addKey [] (concat (map categories cs))"
  using keyCounts_scan_aux [of "[]" cs] by (simp add: scanCalls_def keyCounts_def)

lemma count_list_snoc: "count_list (xs @ [k]) x = (if x = k then Suc (count_list xs x) else count_list xs x)"
  by (induction xs) auto

lemma seenInv_step:
  assumes "seenInv xs m"
  shows "seenInv (xs @ [k]) (addKey m k)"
proof -
  let ?P = "\<lambda>ys a b. firstIndex (fst a) ys < firstIndex (fst b) (ys :: string list)"
  from assms have keys: "fst ` set m = set xs"
    and cnt: "\<forall>e \<in> set m. snd e = count_list xs (fst e)"
    and srt: "sorted_wrt (?P xs) m"
    by (simp_all add: seenInv_def list_all_iff)
  have srt': "sorted_wrt (?P (xs @ [k])) m"
  proof (rule sorted_wrt_mono_rel [OF _ srt])
    fix a b assume "a \<in> set m" "b \<in> set m" "?P xs a b"
    moreover from this keys have "fst a \<in> set xs" "fst b \<in> set xs" by auto
    ultimately show "?P (xs @ [k]) a b" by (simp add: firstIndex_append_in)
  qed
  show ?thesis
  proof (cases "k \<in> fst ` set m")
    case True
    let ?f = "\<lambda>(k', n). if k' = k then (k', Suc n) else (k', n :: nat)"
    have m': "addKey m k = map ?f m" using True by (simp add: addKey_def)
    have fst_f: "\<And>e. fst (?f e) = fst e" by (simp add: split_beta)
    have 1: "fst ` set (map ?f m) = set (xs @ [k])"
      using True keys by (auto simp: image_image fst_f)
    have 2: "\<forall>e \<in> set (map ?f m). snd e = count_list (xs @ [k]) (fst e)"
    proof
      fix e' assume "e' \<in> set (map ?f m)"
      then obtain e where e: "e \<in> set m" "e' = ?f e" by auto
      from e(1) cnt have "snd e = count_list xs (fst e)" by blast
      with e(2) show "snd e' = count_list (xs @ [k]) (fst e')"
        by (cases e) (simp add: count_list_snoc)
    qed
    have 3: "sorted_wrt (?P (xs @ [k])) (map ?f m)"
      using srt' by (simp add: sorted_wrt_map fst_f)
    show ?thesis unfolding m' seenInv_def list_all_iff using 1 2 3 by blast
  next
    case False
    then have knot: "k \<notin> set xs" using keys by simp
    have m': "addKey m k = m @ [(k, 1)]" using False by (simp add: addKey_def)
    have 1: "fst ` set (m @ [(k, 1)]) = set (xs @ [k])"
      using keys by auto
    have 2: "\<forall>e \<in> set (m @ [(k, 1::nat)]). snd e = count_list (xs @ [k]) (fst e)"
      using cnt knot keys by (auto simp: count_list_snoc)
    have "\<forall>a \<in> set m. firstIndex (fst a) (xs @ [k]) < firstIndex k (xs @ [k])"
    proof
      fix a assume "a \<in> set m"
      then have "fst a \<in> set xs" using keys by auto
      then show "firstIndex (fst a) (xs @ [k]) < firstIndex k (xs @ [k])"
        using knot by (simp add: firstIndex_append_in firstIndex_append_notin firstIndex_less)
    qed
    then have 3: "sorted_wrt (?P (xs @ [k])) (m @ [(k, 1)])"
      using srt' by (simp add: sorted_wrt_append)
    show ?thesis unfolding m' seenInv_def list_all_iff using 1 2 3 by blast
  qed
qed

lemma seenInv_foldl: "seenInv xs (foldl addKey [] xs)"
proof (induction xs rule: rev_induct)
  case Nil
  show ?case by (simp add: seenInv_def)
next
  case (snoc x xs)
  then show ?case by (simp add: seenInv_step)
qed

lemma set_insertCmp: "set (insertCmp cmp x ys) = insert x (set ys)"
  by (induction ys) auto

lemma set_arraySort: "set (arraySort cmp xs) = set xs"
  by (induction xs) (simp_all add: arraySort_def set_insertCmp)

lemma length_insertCmp: "length (insertCmp cmp x ys) = Suc (length ys)"
  by (induction ys) auto

lemma distinct_map_insertCmp:
  "distinct (map f (insertCmp cmp x ys)) \<longleftrightarrow> f x \<notin> f ` set ys \<and> distinct (map f ys)"
  by (induction ys) (auto simp: set_insertCmp)

lemma distinct_map_arraySort: "distinct (map f (arraySort cmp xs)) \<longleftrightarrow> distinct (map f xs)"
  by (induction xs) (simp_all add: arraySort_def distinct_map_insertCmp set_arraySort [unfolded arraySort_def])

lemma insertCmp_sorted:
  "sorted_wrt (tieOrder T) ys \<Longrightarrow> \<forall>y \<in> set ys. T x y \<Longrightarrow>
   sorted_wrt (tieOrder T) (insertCmp byCountDesc x ys)"
proof (induction ys)
  case Nil
  show ?case by simp
next
  case (Cons y ys)
  show ?case
  proof (cases "byCountDesc x y \<le> 0")
    case True
    then have le: "count y \<le> count x" by (simp add: byCountDesc_def)
    have "tieOrder T x z" if "z \<in> set (y # ys)" for z
    proof -
      have "count z \<le> count y" using that Cons.prems(1) by (auto simp: tieOrder_def)
      moreover have "T x z" using that Cons.prems(2) by blast
      ultimately show ?thesis using le by (auto simp: tieOrder_def)
    qed
    with True Cons.prems(1) show ?thesis by simp
  next
    case False
    then have lt: "count x < count y" by (simp add: byCountDesc_def)
    have ih: "sorted_wrt (tieOrder T) (insertCmp byCountDesc x ys)"
      using Cons by simp
    have "tieOrder T y x" using lt by (simp add: tieOrder_def)
    with False ih Cons.prems(1) show ?thesis by (auto simp: set_insertCmp)
  qed
qed

lemma arraySort_sorted:
  "sorted_wrt T xs \<Longrightarrow> sorted_wrt (tieOrder T) (arraySort byCountDesc xs)"
proof (induction xs)
  case Nil
  show ?case by (simp add: arraySort_def)
next
  case (Cons x xs)
  then have "sorted_wrt (tieOrder T) (arraySort byCountDesc xs)" by simp
  moreover have "\<forall>y \<in> set (arraySort byCountDesc xs). T x y"
    using Cons.prems by (simp add: set_arraySort)
  ultimately have "sorted_wrt (tieOrder T) (insertCmp byCountDesc x (arraySort byCountDesc xs))"
    by (rule insertCmp_sorted)
  then show ?case by (simp add: arraySort_def)
qed

lemma scanCalls_inv: "seenInv (seenCategories cs) (keyCounts (scanCalls cs))"
  by (simp add: keyCounts_scanCalls seenCategories_def seenInv_foldl)

lemma unsorted_first_seen:
  "sorted_wrt (\<lambda>a b. firstIndex (category a) (seenCategories cs) < firstIndex (category b) (seenCategories cs))
     (map (toStat n) (scanCalls cs))"
  using scanCalls_inv [of cs]
  by (simp add: seenInv_def keyCounts_def sorted_wrt_map toStat_def)

lemma unsorted_counts:
  "\<forall>c \<in> set (map (toStat n) (scanCalls cs)).
     count c = count_list (seenCategories cs) (category c) \<and>
     percentage c = real (count c) / real n * 100"
  using scanCalls_inv [of cs]
  by (auto simp: seenInv_def keyCounts_def toStat_def list_all_iff)

lemma unsorted_names:
  "category ` set (map (toStat n) (scanCalls cs)) = set (seenCategories cs)"
proof -
  have "category ` set (map (toStat n) (scanCalls cs)) = fst ` set (scanCalls cs)"
    by (simp add: image_image toStat_def)
  also have "\<dots> = fst ` set (keyCounts (scanCalls cs))"
    by (simp add: keyCounts_def image_image)
  also have "\<dots> = set (seenCategories cs)"
    using scanCalls_inv [of cs] by (simp add: seenInv_def)
  finally show ?thesis .
qed

lemma sorted_wrt_neq_distinct: "sorted_wrt (\<lambda>a b. g a \<noteq> g b) xs \<Longrightarrow> distinct (map g xs)"
  by (induction xs) auto

lemma unsorted_distinct: "distinct (map category (map (toStat n) (scanCalls cs)))"
proof -
  have "sorted_wrt (\<lambda>a b. category a \<noteq> category b) (map (toStat n) (scanCalls cs))"
    by (rule sorted_wrt_mono_rel [OF _ unsorted_first_seen [of cs n]]) auto
  then show ?thesis by (rule sorted_wrt_neq_distinct)
qed

lemma categoryStats_eq:
  "categoryStats (calculateStatistics cs) = arraySort byCountDesc (map (toStat (length cs)) (scanCalls cs))"
  by (simp add: calculateStatistics_def Let_def)

lemma totalCalls_eq: "totalCalls (calculateStatistics cs) = length cs"
  by (simp add: calculateStatistics_def Let_def)

text \<open>
  Claim C6. On the two-record example, whatever the phone numbers, calculateStatistics
  gives category A with count 2 and percentage 100, category B with count 1 and percentage
  50, total duration 150, average duration 75 and the sentiment distribution positive 1,
  neutral 0, negative 1. In general the categories reported are exactly the labels that
  occur in the records, each once; the count of a category is the number of its
  occurrences over all records, so a record adds to every one of its labels; and the
  percentage is the count divided by the number of calls, times 100.
\<close>

theorem calculateStatistics_multi_label:
  "calculateStatistics
     [\<lparr>phone = p1, duration = 100, categories = [''A'', ''B''], sentiment = Some ''positive''\<rparr>,
      \<lparr>phone = p2, duration = 50, categories = [''A''], sentiment = Some ''negative''\<rparr>] =
   \<lparr>totalCalls = 2, categorizedCalls = 2,
    categoryStats =
      [\<lparr>category = ''A'', count = 2, percentage = 100,
          stat_sentiment = \<lparr>positive = 1, neutral = 0, negative = 1\<rparr>\<rparr>,
       \<lparr>category = ''B'', count = 1, percentage = 50,
          stat_sentiment = \<lparr>positive = 1, neutral = 0, negative = 0\<rparr>\<rparr>],
    calls =
      [\<lparr>phone = p1, duration = 100, categories = [''A'', ''B''], sentiment = Some ''positive''\<rparr>,
       \<lparr>phone = p2, duration = 50, categories = [''A''], sentiment = Some ''negative''\<rparr>],
    summary =
      \<lparr>answerRate = 100, avgDuration = 75, totalDuration = 150,
       sentimentDistribution = \<lparr>positive = 1, neutral = 0, negative = 1\<rparr>,
       topCategories = [''A'', ''B'']\<rparr>\<rparr>
   \<and> category ` set (categoryStats (calculateStatistics cs)) = set (seenCategories cs)
   \<and> distinct (map category (categoryStats (calculateStatistics cs)))
   \<and> (\<forall>c \<in> set (categoryStats (calculateStatistics cs)).
         count c = count_list (seenCategories cs) (category c) \<and>
         percentage c = real (count c) / real (totalCalls (calculateStatistics cs)) * 100)"
proof -
  have 1: "calculateStatistics
     [\<lparr>phone = p1, duration = 100, categories = [''A'', ''B''], sentiment = Some ''positive''\<rparr>,
      \<lparr>phone = p2, duration = 50, categories = [''A''], sentiment = Some ''negative''\<rparr>] =
   \<lparr>totalCalls = 2, categorizedCalls = 2,
    categoryStats =
      [\<lparr>category = ''A'', count = 2, percentage = 100,
          stat_sentiment = \<lparr>positive = 1, neutral = 0, negative = 1\<rparr>\<rparr>,
       \<lparr>category = ''B'', count = 1, percentage = 50,
          stat_sentiment = \<lparr>positive = 1, neutral = 0, negative = 0\<rparr>\<rparr>],
    calls =
      [\<lparr>phone = p1, duration = 100, categories = [''A'', ''B''], sentiment = Some ''positive''\<rparr>,
       \<lparr>phone = p2, duration = 50, categories = [''A''], sentiment = Some ''negative''\<rparr>],
    summary =
      \<lparr>answerRate = 100, avgDuration = 75, totalDuration = 150,
       sentimentDistribution = \<lparr>positive = 1, neutral = 0, negative = 1\<rparr>,
       topCategories = [''A'', ''B'']\<rparr>\<rparr>"
    by (simp add: calculateStatistics_def scanCalls_def addCall_def addCategory_def mapHas_def
        mapSet_def mapUpdate_def emptyAcc_def zeroCounts_def tally_def sentimentOf_def
        toLowerCase_def toLowerChar_def arraySort_def toStat_def byCountDesc_def Let_def)
  have 2: "category ` set (categoryStats (calculateStatistics cs)) = set (seenCategories cs)"
    unfolding categoryStats_eq set_arraySort by (rule unsorted_names)
  have 3: "distinct (map category (categoryStats (calculateStatistics cs)))"
    unfolding categoryStats_eq distinct_map_arraySort by (rule unsorted_distinct)
  have 4: "\<forall>c \<in> set (categoryStats (calculateStatistics cs)).
         count c = count_list (seenCategories cs) (category c) \<and>
         percentage c = real (count c) / real (totalCalls (calculateStatistics cs)) * 100"
    unfolding categoryStats_eq set_arraySort totalCalls_eq by (rule unsorted_counts)
  from 1 2 3 4 show ?thesis by blast
qed

theorem calculateStatistics_multi_label_witness:
  "\<lparr>category = ''A'', count = 2, percentage = 100,
      stat_sentiment = \<lparr>positive = 1, neutral = 0, negative = 1\<rparr>\<rparr>
     \<in> set (categoryStats (calculateStatistics exampleCalls))
   \<and> (2::nat) = count_list (seenCategories exampleCalls) ''A''
   \<and> (100::real) = real 2 / real (totalCalls (calculateStatistics exampleCalls)) * 100"
proof -
  let ?a = "\<lparr>category = ''A'', count = 2, percentage = 100,
      stat_sentiment = \<lparr>positive = 1, neutral = 0, negative = 1\<rparr>\<rparr>"
  from calculateStatistics_multi_label [of "''1''" "''2''" exampleCalls]
  have eq: "categoryStats (calculateStatistics exampleCalls) =
      [?a, \<lparr>category = ''B'', count = 1, percentage = 50,
          stat_sentiment = \<lparr>positive = 1, neutral = 0, negative = 0\<rparr>\<rparr>]"
    and all: "\<forall>c \<in> set (categoryStats (calculateStatistics exampleCalls)).
         count c = count_list (seenCategories exampleCalls) (category c) \<and>
         percentage c = real (count c) / real (totalCalls (calculateStatistics exampleCalls)) * 100"
    by (simp_all add: exampleCalls_def)
  from eq have mem: "?a \<in> set (categoryStats (calculateStatistics exampleCalls))" by simp
  with all have "count ?a = count_list (seenCategories exampleCalls) (category ?a) \<and>
         percentage ?a = real (count ?a) / real (totalCalls (calculateStatistics exampleCalls)) * 100"
    by blast
  with mem show ?thesis by simp
qed

lemma foldl_duration: "foldl (\<lambda>sum call. sum + duration call) a cs = a + sum_list (map duration cs)"
  by (induction cs arbitrary: a) simp_all

text \<open>
  Claim C7. For every input list the categories of the snapshot are sorted descending by
  count, and two categories with the same count stand in the order in which their labels
  were first met while scanning the records in input order; topCategories is the names of
  the first ten entries of that list; and avgDuration is totalDuration divided by
  totalCalls, or 0 when there are no calls.
\<close>

theorem calculateStatistics_order:
  "sorted_wrt (\<lambda>a b. count b < count a \<or>
        (count a = count b \<and>
         firstIndex (category a) (seenCategories cs) < firstIndex (category b) (seenCategories cs)))
     (categoryStats (calculateStatistics cs))
   \<and> topCategories (summary (calculateStatistics cs)) =
       map category (take 10 (categoryStats (calculateStatistics cs)))
   \<and> totalCalls (calculateStatistics cs) = length cs
   \<and> totalDuration (summary (calculateStatistics cs)) = sum_list (map duration cs)
   \<and> avgDuration (summary (calculateStatistics cs)) =
       (if totalCalls (calculateStatistics cs) = 0 then 0
        else totalDuration (summary (calculateStatistics cs)) / real (totalCalls (calculateStatistics cs)))"
proof -
  have "sorted_wrt (tieOrder (\<lambda>a b. firstIndex (category a) (seenCategories cs)
            < firstIndex (category b) (seenCategories cs)))
          (categoryStats (calculateStatistics cs))"
    unfolding categoryStats_eq by (rule arraySort_sorted [OF unsorted_first_seen])
  then have 1: "sorted_wrt (\<lambda>a b. count b < count a \<or>
        (count a = count b \<and>
         firstIndex (category a) (seenCategories cs) < firstIndex (category b) (seenCategories cs)))
     (categoryStats (calculateStatistics cs))"
    by (simp add: tieOrder_def [abs_def])
  have 2: "topCategories (summary (calculateStatistics cs)) =
       map category (take 10 (categoryStats (calculateStatistics cs)))"
    by (simp add: calculateStatistics_def Let_def)
  have 3: "totalCalls (calculateStatistics cs) = length cs"
    by (simp add: calculateStatistics_def Let_def)
  have 4: "totalDuration (summary (calculateStatistics cs)) = sum_list (map duration cs)"
    by (simp add: calculateStatistics_def Let_def foldl_duration)
  have 5: "avgDuration (summary (calculateStatistics cs)) =
       (if totalCalls (calculateStatistics cs) = 0 then 0
        else totalDuration (summary (calculateStatistics cs)) / real (totalCalls (calculateStatistics cs)))"
    by (simp add: calculateStatistics_def Let_def)
  from 1 2 3 4 5 show ?thesis by blast
qed

theorem calculateStatistics_order_witness:
  "map category (categoryStats (calculateStatistics tiedCalls)) = [''B'', ''A'']
   \<and> sorted_wrt (\<lambda>a b. count b < count a \<or>
        (count a = count b \<and>
         firstIndex (category a) [''B'', ''A''] < firstIndex (category b) [''B'', ''A'']))
     (categoryStats (calculateStatistics tiedCalls))
   \<and> topCategories (summary (calculateStatistics tiedCalls)) = [''B'', ''A'']
   \<and> avgDuration (summary (calculateStatistics tiedCalls)) = 15"
proof -
  have names: "map category (categoryStats (calculateStatistics tiedCalls)) = [''B'', ''A'']"
    by (simp add: tiedCalls_def calculateStatistics_def scanCalls_def addCall_def addCategory_def
        mapHas_def mapSet_def mapUpdate_def emptyAcc_def zeroCounts_def tally_def sentimentOf_def
        arraySort_def toStat_def byCountDesc_def Let_def)
  have seen: "seenCategories tiedCalls = [''B'', ''A'']"
    by (simp add: seenCategories_def tiedCalls_def)
  have total: "totalCalls (calculateStatistics tiedCalls) = 2"
    "totalDuration (summary (calculateStatistics tiedCalls)) = 30"
    by (simp_all add: tiedCalls_def calculateStatistics_def Let_def)
  from calculateStatistics_order [of tiedCalls] names seen total show ?thesis
    by (simp add: take_map [symmetric])
qed

section \<open>Properties of the retry wrapper\<close>

lemma delaysOf_append: "delaysOf (xs @ ys) = delaysOf xs @ delaysOf ys"
  by (induction xs rule: delaysOf.induct) simp_all

lemma events_emit: "events (emit msg sev w) = events w @ [Log msg sev]"
  by (simp add: emit_def)

lemma events_sleep: "events (sleep ms w) = events w @ [Sleep ms]"
  by (simp add: sleep_def)

lemma delays_emit: "delaysOf (events (emit msg sev w)) = delaysOf (events w)"
  by (simp add: emit_def delaysOf_append)

lemma delays_sleep: "delaysOf (events (sleep ms w)) = delaysOf (events w) @ [ms]"
  by (simp add: sleep_def delaysOf_append)

lemma requestCount_emit: "requestCount (emit msg sev w) = requestCount w"
  by (simp add: emit_def requestCount_def)

lemma requestCount_sleep: "requestCount (sleep ms w) = requestCount w"
  by (simp add: sleep_def requestCount_def)


lemma config_sleep: "currentModelConfig (sleep ms w) = currentModelConfig w"
  by (simp add: sleep_def)

lemma retry_ok:
  "fn w = (Inr v, w1) \<Longrightarrow> retryWithBackoff fn m n w = (Inr v, w1)"
  by (subst retryWithBackoff.simps) simp

lemma retry_429:
  "fn w = (Inl e, w1) \<Longrightarrow> status e = Some 429 \<Longrightarrow> n < m \<Longrightarrow>
   retryWithBackoff fn m n w =
   retryWithBackoff fn m (Suc n)
     (sleep (min (5000 * 2 ^ n) 90000)
        (emit (''Rate limit hit. Retrying after '' @ attemptText (min (5000 * 2 ^ n) 90000) n m)
           Warning w1))"
  by (subst retryWithBackoff.simps) (simp add: Let_def)

lemma retry_429_exhausted:
  "fn w = (Inl e, w1) \<Longrightarrow> status e = Some 429 \<Longrightarrow> \<not> n < m \<Longrightarrow>
   retryWithBackoff fn m n w = (Inl e, w1)"
  by (subst retryWithBackoff.simps) (simp add: contextTooLong_def serverError_def)

lemma retry_no_status:
  "fn w = (Inl e, w1) \<Longrightarrow> status e = None \<Longrightarrow> retryWithBackoff fn m n w = (Inl e, w1)"
  by (subst retryWithBackoff.simps) (simp add: contextTooLong_def serverError_def)

lemma retry_429_run:
  assumes fails: "\<And>w. \<exists>e w1. fn w = (Inl e, w1) \<and> status e = Some 429 \<and>
              delaysOf (events w1) = delaysOf (events w) \<and> requestCount w1 = Suc (requestCount w)"
  shows "n \<le> m \<Longrightarrow> \<exists>e w' wl. retryWithBackoff fn m n w = (Inl e, w') \<and> fn wl = (Inl e, w') \<and>
           status e = Some 429 \<and>
           delaysOf (events w') = delaysOf (events w) @ map (\<lambda>k. min (5000 * 2 ^ k) 90000) [n..<m] \<and>
           requestCount w' = requestCount w + (m - n) + 1"
proof (induction "m - n" arbitrary: n w)
  case 0
  from fails [of w] obtain e w1 where f: "fn w = (Inl e, w1)" "status e = Some 429"
    "delaysOf (events w1) = delaysOf (events w)" "requestCount w1 = Suc (requestCount w)" by blast
  from 0 have "\<not> n < m" by simp
  with f have r: "retryWithBackoff fn m n w = (Inl e, w1)" by (simp add: retry_429_exhausted)
  from 0 have "[n..<m] = []" "m - n = 0" by simp_all
  with f have "delaysOf (events w1) = delaysOf (events w) @ map (\<lambda>k. min (5000 * 2 ^ k) 90000) [n..<m]"
    "requestCount w1 = requestCount w + (m - n) + 1" by simp_all
  with r f(1,2) show ?case by blast
next
  case (Suc d)
  from fails [of w] obtain e w1 where f: "fn w = (Inl e, w1)" "status e = Some 429"
    "delaysOf (events w1) = delaysOf (events w)" "requestCount w1 = Suc (requestCount w)" by blast
  from Suc have lt: "n < m" by simp
  let ?w2 = "sleep (min (5000 * 2 ^ n) 90000)
        (emit (''Rate limit hit. Retrying after '' @ attemptText (min (5000 * 2 ^ n) 90000) n m)
           Warning w1)"
  have step: "retryWithBackoff fn m n w = retryWithBackoff fn m (Suc n) ?w2"
    using f(1,2) lt by (rule retry_429)
  have "d = m - Suc n" "Suc n \<le> m" using Suc by simp_all
  from Suc.hyps(1) [OF this] obtain e' w' wl where
    r: "retryWithBackoff fn m (Suc n) ?w2 = (Inl e', w')" "fn wl = (Inl e', w')"
       "status e' = Some 429"
       "delaysOf (events w') = delaysOf (events ?w2) @ map (\<lambda>k. min (5000 * 2 ^ k) 90000) [Suc n..<m]"
       "requestCount w' = requestCount ?w2 + (m - Suc n) + 1" by blast
  have d2: "delaysOf (events ?w2) = delaysOf (events w) @ [min (5000 * 2 ^ n) 90000]"
    by (simp add: delays_sleep delays_emit f)
  have c2: "requestCount ?w2 = Suc (requestCount w)"
    by (simp add: requestCount_sleep requestCount_emit f)
  have "delaysOf (events w') = delaysOf (events w) @ map (\<lambda>k. min (5000 * 2 ^ k) 90000) [n..<m]"
    using r(4) d2 lt by (simp add: upt_conv_Cons)
  moreover have "requestCount w' = requestCount w + (m - n) + 1"
    using r(5) c2 lt by simp
  ultimately show ?case using step r(1,2,3) by (metis (no_types, lifting))
qed

text \<open>
  Claim C2. Let the operation fail with status 429 every time it is called, each call
  being one request that does not sleep by itself. Then retryWithBackoff sleeps
  min(5000 * 2^n, 90000) ms before retry n, for n from 0 below maxRetries, and returns the
  error of the last call, after maxRetries + 1 calls. With the default of 5 retries the
  delays are 5000, 10000, 20000, 40000 and 80000 ms and the sixth failure is propagated.
\<close>

theorem retry_rate_limited:
  assumes fails: "\<forall>w. \<exists>e w1. fn w = (Inl e, w1) \<and> status e = Some 429 \<and>
              delaysOf (events w1) = delaysOf (events w) \<and> requestCount w1 = Suc (requestCount w)"
  shows "(\<exists>e w' wl. retryWithBackoff fn maxRetries 0 w = (Inl e, w') \<and> fn wl = (Inl e, w') \<and>
           status e = Some 429 \<and>
           delaysOf (events w') =
             delaysOf (events w) @ map (\<lambda>n. min (5000 * 2 ^ n) 90000) [0..<maxRetries] \<and>
           requestCount w' = requestCount w + maxRetries + 1)
       \<and> (\<exists>e w' wl. retryWithBackoff fn 5 0 w = (Inl e, w') \<and> fn wl = (Inl e, w') \<and>
           status e = Some 429 \<and>
           delaysOf (events w') = delaysOf (events w) @ [5000, 10000, 20000, 40000, 80000] \<and>
           requestCount w' = requestCount w + 6)"
proof -
  have f: "\<And>w. \<exists>e w1. fn w = (Inl e, w1) \<and> status e = Some 429 \<and>
              delaysOf (events w1) = delaysOf (events w) \<and> requestCount w1 = Suc (requestCount w)"
    using fails by blast
  have 1: "\<exists>e w' wl. retryWithBackoff fn maxRetries 0 w = (Inl e, w') \<and> fn wl = (Inl e, w') \<and>
           status e = Some 429 \<and>
           delaysOf (events w') =
             delaysOf (events w) @ map (\<lambda>n. min (5000 * 2 ^ n) 90000) [0..<maxRetries] \<and>
           requestCount w' = requestCount w + maxRetries + 1"
    using retry_429_run [of fn 0 maxRetries w, OF f] by (simp only: le0 diff_zero)
  have "[0..<5] = [0, 1, 2, 3, 4::nat]"
    by (simp add: upt_conv_Cons)
  then have five: "map (\<lambda>n. min (5000 * 2 ^ n) (90000::nat)) [0..<5] = [5000, 10000, 20000, 40000, 80000]"
    by simp
  have 2: "\<exists>e w' wl. retryWithBackoff fn 5 0 w = (Inl e, w') \<and> fn wl = (Inl e, w') \<and>
           status e = Some 429 \<and>
           delaysOf (events w') = delaysOf (events w) @ [5000, 10000, 20000, 40000, 80000] \<and>
           requestCount w' = requestCount w + 6"
  proof -
    from retry_429_run [of fn 0 5 w, OF f] obtain e w' wl where
      r: "retryWithBackoff fn 5 0 w = (Inl e, w')" "fn wl = (Inl e, w')" "status e = Some 429"
         "delaysOf (events w') = delaysOf (events w) @ map (\<lambda>k. min (5000 * 2 ^ k) 90000) [0..<5]"
         "requestCount w' = requestCount w + (5 - 0) + 1" by blast
    from r(4) have "delaysOf (events w') = delaysOf (events w) @ [5000, 10000, 20000, 40000, 80000]"
      by (simp only: five)
    moreover from r(5) have "requestCount w' = requestCount w + 6" by simp
    ultimately show ?thesis using r(1,2,3) by blast
  qed
  from 1 2 show ?thesis by blast
qed

lemma classifyOnce_env429:
  "\<exists>e w1. classifyOnce env429 item0 w = (Inl e, w1) \<and> status e = Some 429 \<and>
     delaysOf (events w1) = delaysOf (events w) \<and> requestCount w1 = Suc (requestCount w)"
  by (simp add: classifyOnce_def callProvider_def callGroqAPI_def callGeminiAPI_def env429_def
      responseOk_def Let_def emit_def requestCount_def delaysOf_append)

theorem retry_rate_limited_witness:
  "\<exists>e w'. retryWithBackoff (classifyOnce env429 item0) 5 0 w0 = (Inl e, w') \<and>
     status e = Some 429 \<and>
     delaysOf (events w') = [5000, 10000, 20000, 40000, 80000] \<and>
     requestCount w' = 6"
proof -
  have h: "\<forall>w. \<exists>e w1. classifyOnce env429 item0 w = (Inl e, w1) \<and> status e = Some 429 \<and>
     delaysOf (events w1) = delaysOf (events w) \<and> requestCount w1 = Suc (requestCount w)"
    using classifyOnce_env429 by blast
  have "delaysOf (events w0) = []" "requestCount w0 = 0"
    by (simp_all add: w0_def requestCount_def)
  with retry_rate_limited [OF h, of 5 w0] show ?thesis by auto
qed

section \<open>Properties of categorizeCall and of the orchestrator\<close>

lemma getModelConfig_emit: "getModelConfig (emit msg sev w) = getModelConfig w"
  by (simp add: getModelConfig_def emit_def)

lemma callProvider_fst_cong:
  "requestCount w = requestCount w' \<Longrightarrow>
   fst (callProvider env c q w) = fst (callProvider env c q w')"
  by (simp add: callProvider_def callGroqAPI_def callGeminiAPI_def Let_def split: sum.splits)

lemma callProvider_Inr:
  "callProvider env c q w = (Inr t, w1) \<Longrightarrow>
   w1 = w\<lparr>events := events w @ [Request (provider c) (model c) q]\<rparr>"
  by (cases "provider c")
     (auto simp: callProvider_def callGroqAPI_def callGeminiAPI_def Let_def
           split: if_splits sum.splits)

lemma requestCount_request:
  "requestCount (w\<lparr>events := events w @ [Request p m q]\<rparr>) = Suc (requestCount w)"
  by (simp add: requestCount_def)

lemma delays_request:
  "delaysOf (events (w\<lparr>events := events w @ [Request p m q]\<rparr>)) = delaysOf (events w)"
  by (simp add: delaysOf_append)

lemma classifyOnce_malformed:
  assumes reply: "fst (callProvider env (getModelConfig w) (ClassifyPrompt item) w) = Inr text"
    and bad: "jsonMatch (cleanResponse text) = None \<or>
              (\<exists>m. jsonMatch (cleanResponse text) = Some m \<and> jsonParse env m = None)"
  shows "\<exists>e w1. classifyOnce env item w = (Inl e, w1) \<and> status e = None \<and>
           message e \<in> {noJsonMsg w, invalidJsonMsg w} \<and>
           delaysOf (events w1) = delaysOf (events w) \<and>
           requestCount w1 = Suc (requestCount w)"
proof -
  let ?c = "getModelConfig w"
  let ?w1 = "emit (''Analyzing call transcript ('' @ showNat (length (transcript item))
                     @ '' characters) with '' @ providerName (provider ?c) @ ''/'' @ model ?c @ ''...'') Info w"
  obtain r w2 where cp: "callProvider env ?c (ClassifyPrompt item) ?w1 = (r, w2)"
    by (cases "callProvider env ?c (ClassifyPrompt item) ?w1")
  have "fst (callProvider env ?c (ClassifyPrompt item) ?w1) = Inr text"
    using reply callProvider_fst_cong [of ?w1 w env ?c "ClassifyPrompt item"]
    by (simp add: requestCount_emit)
  with cp have r: "r = Inr text" by simp
  from cp r have w2: "w2 = ?w1\<lparr>events := events ?w1 @ [Request (provider ?c) (model ?c) (ClassifyPrompt item)]\<rparr>"
    by (simp add: callProvider_Inr)
  have d2: "delaysOf (events w2) = delaysOf (events w)"
    unfolding w2 by (simp add: delaysOf_append emit_def)
  have c2: "requestCount w2 = Suc (requestCount w)"
    unfolding w2 by (simp add: requestCount_def emit_def)
  from bad show ?thesis
  proof
    assume "jsonMatch (cleanResponse text) = None"
    then have "classifyOnce env item w =
        (Inl (plainError (noJsonMsg w)),
         emit (''Response: '' @ take 200 text) Error
           (emit (''Failed to extract JSON from '' @ providerName (provider ?c) @ '' response'') Error w2))"
      using cp r by (simp add: classifyOnce_def Let_def noJsonMsg_def)
    then show ?thesis
      by (simp add: plainError_def delays_emit requestCount_emit d2 c2)
  next
    assume "\<exists>m. jsonMatch (cleanResponse text) = Some m \<and> jsonParse env m = None"
    then obtain m where "jsonMatch (cleanResponse text) = Some m" "jsonParse env m = None" by blast
    then have "classifyOnce env item w =
        (Inl (plainError (invalidJsonMsg w)),
         emit (''JSON text: '' @ take 200 m) Error
           (emit (''Failed to parse JSON from '' @ providerName (provider ?c) @ '' response'') Error w2))"
      using cp r by (simp add: classifyOnce_def Let_def invalidJsonMsg_def)
    then show ?thesis
      by (simp add: plainError_def delays_emit requestCount_emit d2 c2)
  qed
qed

lemma batchStep_failure:
  assumes "categorizeCall env (items ! i) (emit (progressMsg i (length items)) Progress w) = (Inl e, w1)"
    and "\<not> fatalRateLimit e"
  shows "\<exists>w2. batchStep env items op i results w = (Inr (results @ [fallbackResult e]), w2) \<and>
           requestCount w2 = requestCount w1 \<and>
           delaysOf (events w2) = delaysOf (events w1) @ (if i < length items - 1 then [10000] else [])"
  using assms
  by (simp add: batchStep_def catchBlock_def Let_def notify_def emit_def sleep_def requestCount_def
      delaysOf_append)

text \<open>
  Claim C5. Let the provider answer the request for item \<open>i\<close> with a text in which no
  \<open>{...}\<close> object is found, or whose extracted object does not parse. Then
  categorizeCall fails with an error without a status, after exactly one request and
  without any sleep: the retry wrapper does not retry it. The orchestrator records the
  fallback result for the item and goes on, sleeping only its own 10 s pause when the
  item is not the last.
\<close>

theorem malformed_response_not_retried:
  assumes inrange: "i < length items"
    and reply: "fst (callProvider env (getModelConfig w) (ClassifyPrompt (items ! i)) w) = Inr text"
    and bad: "jsonMatch (cleanResponse text) = None \<or>
              (\<exists>m. jsonMatch (cleanResponse text) = Some m \<and> jsonParse env m = None)"
  shows "(\<exists>e w1. categorizeCall env (items ! i) w = (Inl e, w1) \<and> status e = None \<and>
            (message e = ''No JSON found in '' @ providerName (provider (getModelConfig w)) @ '' response'' \<or>
             message e = ''Invalid JSON in '' @ providerName (provider (getModelConfig w)) @ '' response'') \<and>
            delaysOf (events w1) = delaysOf (events w) \<and>
            requestCount w1 = Suc (requestCount w))
       \<and> (\<exists>e w2. batchStep env items onProgress i results w = (Inr (results @ [fallbackResult e]), w2) \<and>
            status e = None \<and>
            (message e = ''No JSON found in '' @ providerName (provider (getModelConfig w)) @ '' response'' \<or>
             message e = ''Invalid JSON in '' @ providerName (provider (getModelConfig w)) @ '' response'') \<and>
            requestCount w2 = Suc (requestCount w) \<and>
            delaysOf (events w2) = delaysOf (events w) @ (if i < length items - 1 then [10000] else []))"
proof -
  have A: "\<exists>e w1. categorizeCall env (items ! i) w' = (Inl e, w1) \<and> status e = None \<and>
            message e \<in> {noJsonMsg w, invalidJsonMsg w} \<and>
            delaysOf (events w1) = delaysOf (events w') \<and>
            requestCount w1 = Suc (requestCount w')"
    if same: "getModelConfig w' = getModelConfig w" "requestCount w' = requestCount w" for w'
  proof -
    have "fst (callProvider env (getModelConfig w') (ClassifyPrompt (items ! i)) w') = Inr text"
      using reply same callProvider_fst_cong [of w' w env "getModelConfig w" "ClassifyPrompt (items ! i)"]
      by simp
    from classifyOnce_malformed [OF this bad] obtain e w1 where
      c: "classifyOnce env (items ! i) w' = (Inl e, w1)" "status e = None"
         "message e \<in> {noJsonMsg w', invalidJsonMsg w'}"
         "delaysOf (events w1) = delaysOf (events w')" "requestCount w1 = Suc (requestCount w')"
      by blast
    from c(1,2) have "categorizeCall env (items ! i) w' = (Inl e, w1)"
      unfolding categorizeCall_def by (rule retry_no_status)
    moreover from c(3) same have "message e \<in> {noJsonMsg w, invalidJsonMsg w}"
      by (simp add: noJsonMsg_def invalidJsonMsg_def)
    ultimately show ?thesis using c(2,4,5) by blast
  qed
  from A [of w] have 1: "\<exists>e w1. categorizeCall env (items ! i) w = (Inl e, w1) \<and> status e = None \<and>
            (message e = ''No JSON found in '' @ providerName (provider (getModelConfig w)) @ '' response'' \<or>
             message e = ''Invalid JSON in '' @ providerName (provider (getModelConfig w)) @ '' response'') \<and>
            delaysOf (events w1) = delaysOf (events w) \<and>
            requestCount w1 = Suc (requestCount w)"
    by (simp add: noJsonMsg_def invalidJsonMsg_def)
  let ?w' = "emit (progressMsg i (length items)) Progress w"
  from A [of ?w'] obtain e w1 where
    c: "categorizeCall env (items ! i) ?w' = (Inl e, w1)" "status e = None"
       "message e \<in> {noJsonMsg w, invalidJsonMsg w}"
       "delaysOf (events w1) = delaysOf (events ?w')" "requestCount w1 = Suc (requestCount ?w')"
    by (auto simp: getModelConfig_emit requestCount_emit)
  from c(2) have nf: "\<not> fatalRateLimit e" by (simp add: fatalRateLimit_def)
  from batchStep_failure [OF c(1) nf, of onProgress results] obtain w2 where
    b: "batchStep env items onProgress i results w = (Inr (results @ [fallbackResult e]), w2)"
       "requestCount w2 = requestCount w1"
       "delaysOf (events w2) = delaysOf (events w1) @ (if i < length items - 1 then [10000] else [])"
    by blast
  have "requestCount w2 = Suc (requestCount w)"
    using b(2) c(5) by (simp add: requestCount_emit)
  moreover have "delaysOf (events w2) = delaysOf (events w) @ (if i < length items - 1 then [10000] else [])"
    using b(3) c(4) by (simp add: delays_emit)
  moreover have "message e = ''No JSON found in '' @ providerName (provider (getModelConfig w)) @ '' response'' \<or>
             message e = ''Invalid JSON in '' @ providerName (provider (getModelConfig w)) @ '' response''"
    using c(3) by (simp add: noJsonMsg_def invalidJsonMsg_def)
  ultimately have 2: "\<exists>e w2. batchStep env items onProgress i results w = (Inr (results @ [fallbackResult e]), w2) \<and>
            status e = None \<and>
            (message e = ''No JSON found in '' @ providerName (provider (getModelConfig w)) @ '' response'' \<or>
             message e = ''Invalid JSON in '' @ providerName (provider (getModelConfig w)) @ '' response'') \<and>
            requestCount w2 = Suc (requestCount w) \<and>
            delaysOf (events w2) = delaysOf (events w) @ (if i < length items - 1 then [10000] else [])"
    using b(1) c(2) by blast
  from 1 2 show ?thesis by blast
qed

lemma clean_sorry: "jsonMatch (cleanResponse ''Sorry, I cannot help.'') = None"
  by (simp add: jsonMatch_def cleanResponse_def trim_def isSpace_def fence_def fenceJson_def
      startsWith_def dropNewline_def)

lemma reply_sorry:
  "fst (callProvider (envText ''Sorry, I cannot help.'') (getModelConfig w0) (ClassifyPrompt ([item0] ! 0)) w0)
     = Inr ''Sorry, I cannot help.''"
  by (simp add: callProvider_def callGroqAPI_def getModelConfig_def w0_def envText_def responseOk_def
      orElse_def Let_def)

theorem malformed_response_not_retried_witness:
  "\<exists>e w2. batchStep (envText ''Sorry, I cannot help.'') [item0] False 0 [] w0 =
       (Inr ([] @ [fallbackResult e]), w2) \<and>
     status e = None \<and> requestCount w2 = 1 \<and> delaysOf (events w2) = []"
proof -
  have bad: "jsonMatch (cleanResponse ''Sorry, I cannot help.'') = None \<or>
     (\<exists>m. jsonMatch (cleanResponse ''Sorry, I cannot help.'') = Some m \<and>
          jsonParse (envText ''Sorry, I cannot help.'') m = None)"
    using clean_sorry by blast
  have len: "0 < length [item0]" by simp
  have cfg: "providerName (provider (getModelConfig w0)) = ''groq''"
    by (simp add: getModelConfig_def w0_def providerName_def)
  have st: "requestCount w0 = 0" "delaysOf (events w0) = []"
    by (simp_all add: w0_def requestCount_def)
  from malformed_response_not_retried [OF len reply_sorry bad, of False "[]"] cfg st
  show ?thesis by auto
qed

lemma startsWith_self_append: "startsWith (p @ s) p"
  by (simp add: startsWith_def)




lemma advances_refl: "advances w w"
  by (simp add: advances_def)

lemma advances_trans: "advances a b \<Longrightarrow> advances b c \<Longrightarrow> advances a c"
  by (auto simp: advances_def)


lemma advances_emit: "advances w (emit msg sev w)"
  by (simp add: advances_def emit_def)

lemma advances_sleep: "advances w (sleep ms w)"
  by (simp add: advances_def sleep_def)

lemma advances_notify: "advances w (notify op a b w)"
  by (simp add: advances_def notify_def)

lemma advances_emit_after: "advances w w' \<Longrightarrow> advances w (emit msg sev w')"
  by (rule advances_trans [OF _ advances_emit])

lemma advances_sleep_after: "advances w w' \<Longrightarrow> advances w (sleep ms w')"
  by (rule advances_trans [OF _ advances_sleep])

lemma advances_notify_after: "advances w w' \<Longrightarrow> advances w (notify op a b w')"
  by (rule advances_trans [OF _ advances_notify])

lemmas advances_after = advances_emit_after advances_sleep_after advances_notify_after








lemma requestCount_notify: "requestCount (notify op a b w) = requestCount w"
  by (simp add: notify_def requestCount_def)

lemma catchBlock_nonfatal:
  "\<not> fatalRateLimit e \<Longrightarrow>
   fst (catchBlock n op i results e w) = Inr (results @ [fallbackResult e]) \<and>
   requestCount (snd (catchBlock n op i results e w)) = requestCount w \<and>
   delaysOf (events (snd (catchBlock n op i results e w))) =
     delaysOf (events w) @ (if i < n - 1 then [10000] else [])"
  by (simp add: catchBlock_def Let_def notify_def emit_def sleep_def requestCount_def
      delaysOf_append)

lemma catchBlock_fatal:
  "fatalRateLimit e \<Longrightarrow>
   catchBlock n op i results e w =
     (Inl (plainError (''Rate limit exceeded after retries. Processed ''
             @ showNat (Suc (length results)) @ ''/'' @ showNat n @ '' calls. '' @ message e)),
      emit (''   Successfully processed '' @ showNat (Suc (length results))
            @ '' calls before error.'') Info
        (emit ''Critical rate limit error. Stopping batch processing.'' Error
          (notify op (i + 1) n
            (emit (''   Call '' @ showNat (i + 1) @ '' marked as uncategorized due to error'')
               Warning
              (emit ''   Using fallback categorization for this call...'' Warning
                (emit (''   Error processing call '' @ showNat (i + 1) @ '': '' @ message e)
                   Error w))))))"
  by (simp add: catchBlock_def Let_def)

lemma joinError_nonfatal: "\<not> fatalRateLimit joinError"
  by (simp add: joinError_def plainError_def fatalRateLimit_def)

lemma batchStep_caught:
  "categorizeCall env (items ! i) (emit (progressMsg i (length items)) Progress w) = (Inl e, w1) \<Longrightarrow>
   batchStep env items op i results w = catchBlock (length items) op i results e w1"
  by (simp add: batchStep_def Let_def)

lemma batchStep_success:
  assumes "categorizeCall env (items ! i) (emit (progressMsg i (length items)) Progress w) = (Inr r, w1)"
    and "\<not> joinThrows (r_categories r)"
  shows "fst (batchStep env items op i results w) = Inr (results @ [r]) \<and>
         requestCount (snd (batchStep env items op i results w)) = requestCount w1"
  using assms
  by (simp add: batchStep_def Let_def requestCount_emit requestCount_sleep requestCount_notify)

lemma batchStep_double_push:
  assumes "categorizeCall env (items ! i) (emit (progressMsg i (length items)) Progress w) = (Inr r, w1)"
    and "joinThrows (r_categories r)"
  shows "fst (batchStep env items op i results w) = Inr (results @ [r, fallbackResult joinError]) \<and>
         requestCount (snd (batchStep env items op i results w)) = requestCount w1"
proof -
  have "batchStep env items op i results w =
        catchBlock (length items) op i (results @ [r]) joinError
          (emit (''   Call '' @ showNat (i + 1) @ '' processed'') Success w1)"
    using assms by (simp add: batchStep_def Let_def)
  with catchBlock_nonfatal [OF joinError_nonfatal] show ?thesis
    by (simp add: requestCount_emit)
qed



lemma batchLoop_continue:
  "i < length items \<Longrightarrow> batchStep env items op i results w = (Inr rs1, w1) \<Longrightarrow>
   batchLoop env items op i results w = batchLoop env items op (Suc i) rs1 w1"
  by (simp add: batchLoop.simps [of env items op i results w])

lemma batchLoop_abort:
  "i < length items \<Longrightarrow> batchStep env items op i results w = (Inl e, w1) \<Longrightarrow>
   batchLoop env items op i results w = (Inl e, w1)"
  by (simp add: batchLoop.simps [of env items op i results w])

lemma batchLoop_done:
  "\<not> i < length items \<Longrightarrow> batchLoop env items op i results w = (Inr results, w)"
  by (simp add: batchLoop.simps [of env items op i results w])



lemma clean_empty_object: "jsonMatch (cleanResponse ''{}'') = Some ''{}''"
  by (simp add: jsonMatch_def cleanResponse_def trim_def isSpace_def fence_def fenceJson_def
      startsWith_def dropNewline_def)

lemma clean_badReply: "jsonMatch (cleanResponse badReply) = Some badReply"
  by (simp add: badReply_def jsonMatch_def cleanResponse_def trim_def isSpace_def fence_def
      fenceJson_def startsWith_def dropNewline_def)

lemma badReply_not_empty_object: "badReply \<noteq> ''{}''"
  by (simp add: badReply_def)

lemma joinThrows_badResult: "joinThrows (r_categories badResult)"
  by (simp add: joinThrows_def badResult_def)

lemma not_joinThrows_defaultResult: "\<not> joinThrows (r_categories defaultResult)"
  by (simp add: joinThrows_def defaultResult_def)



lemma classifyOnce_envFirst_later:
  assumes "0 < requestCount w"
  shows "fst (classifyOnce (envFirst t) item w) = Inr defaultResult \<and>
         requestCount (snd (classifyOnce (envFirst t) item w)) = Suc (requestCount w)"
  using assms
  by (cases "provider (getModelConfig w)")
     (simp_all add: classifyOnce_def callProvider_def callGroqAPI_def callGeminiAPI_def
        envFirst_def responseOk_def orElse_def Let_def clean_empty_object categoriesOf_def
        sentimentField_def summaryOf_def defaultResult_def requestCount_def emit_def)

lemma categorizeCall_envFirst_later:
  assumes "0 < requestCount w"
  shows "fst (categorizeCall (envFirst t) item w) = Inr defaultResult \<and>
         requestCount (snd (categorizeCall (envFirst t) item w)) = Suc (requestCount w)"
proof -
  obtain w1 where c: "classifyOnce (envFirst t) item w = (Inr defaultResult, w1)"
    using classifyOnce_envFirst_later [OF assms, of t item]
    by (cases "classifyOnce (envFirst t) item w") simp
  then have "categorizeCall (envFirst t) item w = classifyOnce (envFirst t) item w"
    unfolding categorizeCall_def by (simp add: retry_ok)
  with classifyOnce_envFirst_later [OF assms, of t item] show ?thesis by simp
qed

lemma classifyOnce_envFirst_bad:
  assumes "requestCount w = 0"
  shows "fst (classifyOnce (envFirst badReply) item w) = Inr badResult \<and>
         requestCount (snd (classifyOnce (envFirst badReply) item w)) = Suc 0"
  using assms
  by (cases "provider (getModelConfig w)")
     (simp_all add: classifyOnce_def callProvider_def callGroqAPI_def callGeminiAPI_def
        envFirst_def responseOk_def orElse_def Let_def clean_badReply badReply_not_empty_object
        badObject_def categoriesOf_def
        sentimentField_def summaryOf_def badResult_def requestCount_def emit_def)

lemma categorizeCall_envFirst_bad:
  assumes "requestCount w = 0"
  shows "fst (categorizeCall (envFirst badReply) item w) = Inr badResult \<and>
         requestCount (snd (categorizeCall (envFirst badReply) item w)) = Suc 0"
proof -
  obtain w1 where c: "classifyOnce (envFirst badReply) item w = (Inr badResult, w1)"
    using classifyOnce_envFirst_bad [OF assms, of item]
    by (cases "classifyOnce (envFirst badReply) item w") simp
  then have "categorizeCall (envFirst badReply) item w = classifyOnce (envFirst badReply) item w"
    unfolding categorizeCall_def by (simp add: retry_ok)
  with classifyOnce_envFirst_bad [OF assms, of item] show ?thesis by simp
qed




lemma requestCount_loopStart: "requestCount (loopStart items w) = requestCount w"
  by (simp add: loopStart_def requestCount_emit)


lemma batch_aborted:
  "batchLoop env items op 0 [] (loopStart items w) = (Inl e, w4) \<Longrightarrow>
   batchCategorizeCallsWithProgress env items op w = (Inl e, w4)"
  by (simp add: batchCategorizeCallsWithProgress_def loopStart_def Let_def)

lemma batch_returned:
  assumes "batchLoop env items op 0 [] (loopStart items w) = (Inr rs, w4)"
  shows "fst (batchCategorizeCallsWithProgress env items op w) = Inr rs \<and>
         advances w4 (snd (batchCategorizeCallsWithProgress env items op w)) \<and>
         requestCount (snd (batchCategorizeCallsWithProgress env items op w)) = requestCount w4"
  using assms
  by (simp add: batchCategorizeCallsWithProgress_def loopStart_def Let_def advances_after
      advances_refl requestCount_emit)




lemma showNat_1: "showNat (Suc 0) = ''1''"
  by (simp add: showNat.simps digitChar_def)

lemma fatal_error429: "fatalRateLimit error429"
  by (simp add: fatalRateLimit_def error429_def startsWith_def)

lemma requestCount_w0: "requestCount w0 = 0"
  by (simp add: w0_def requestCount_def)

text \<open>
  Claim C1, at a failing input. A batch of two items; the provider answers the first
  request with \<open>{"categories":[{"toString":1}]}\<close> and the second with \<open>{}\<close>. The
  classification of the first item succeeds and its result is pushed; the log line that
  joins the categories then throws inside the \<open>try\<close>, and the \<open>catch\<close> block pushes a
  fallback for the same item. The batch runs to completion without a fatal abort and
  returns three results for two items: position 1 holds the fallback of item 0, and the
  result of item 1 is at position 2.
\<close>

theorem batch_pushes_twice_for_one_item:
  "fst (batchCategorizeCallsWithProgress (envFirst badReply) [item0, item1] False w0) =
     Inr [badResult, fallbackResult joinError, defaultResult]
   \<and> requestCount (snd (batchCategorizeCallsWithProgress (envFirst badReply) [item0, item1] False w0)) = 2
   \<and> fst (categorizeCall (envFirst badReply) item0 w0) = Inr badResult
   \<and> joinThrows (r_categories badResult)"
proof -
  let ?env = "envFirst badReply"
  let ?items = "[item0, item1]"
  let ?w3 = "loopStart ?items w0"
  have n3: "requestCount ?w3 = 0" by (simp add: requestCount_loopStart requestCount_w0)
  obtain r0 v0 where c0: "categorizeCall ?env (?items ! 0)
      (emit (progressMsg 0 (length ?items)) Progress ?w3) = (r0, v0)"
    by (cases "categorizeCall ?env (?items ! 0) (emit (progressMsg 0 (length ?items)) Progress ?w3)")
  from categorizeCall_envFirst_bad [of "emit (progressMsg 0 (length ?items)) Progress ?w3" "?items ! 0"]
    n3 c0
  have r0: "r0 = Inr badResult" and nv0: "requestCount v0 = Suc 0"
    by (simp_all add: requestCount_emit)
  obtain s0 wA where st0: "batchStep ?env ?items False 0 [] ?w3 = (s0, wA)"
    by (cases "batchStep ?env ?items False 0 [] ?w3")
  from batchStep_double_push [OF c0 [unfolded r0] joinThrows_badResult, of False "[]"] st0 nv0
  have s0: "s0 = Inr [badResult, fallbackResult joinError]" and nA: "requestCount wA = Suc 0"
    by simp_all
  obtain r1 v1 where c1: "categorizeCall ?env (?items ! 1)
      (emit (progressMsg 1 (length ?items)) Progress wA) = (r1, v1)"
    by (cases "categorizeCall ?env (?items ! 1) (emit (progressMsg 1 (length ?items)) Progress wA)")
  from categorizeCall_envFirst_later [of "emit (progressMsg 1 (length ?items)) Progress wA"
      badReply "?items ! 1"] nA c1
  have r1: "r1 = Inr defaultResult" and nv1: "requestCount v1 = 2"
    by (simp_all add: requestCount_emit)
  obtain s1 wB where st1: "batchStep ?env ?items False 1 [badResult, fallbackResult joinError] wA
      = (s1, wB)"
    by (cases "batchStep ?env ?items False 1 [badResult, fallbackResult joinError] wA")
  from batchStep_success [OF c1 [unfolded r1] not_joinThrows_defaultResult, of False
      "[badResult, fallbackResult joinError]"] st1 nv1
  have s1: "s1 = Inr [badResult, fallbackResult joinError, defaultResult]"
    and nB: "requestCount wB = 2"
    by simp_all
  have "batchLoop ?env ?items False 0 [] ?w3 =
        batchLoop ?env ?items False (Suc 0) [badResult, fallbackResult joinError] wA"
    by (rule batchLoop_continue [OF _ st0 [unfolded s0]]) simp
  also have "\<dots> = batchLoop ?env ?items False (Suc (Suc 0))
                      [badResult, fallbackResult joinError, defaultResult] wB"
    by (rule batchLoop_continue [OF _ st1 [unfolded s1, simplified]]) simp
  also have "\<dots> = (Inr [badResult, fallbackResult joinError, defaultResult], wB)"
    by (rule batchLoop_done) simp
  finally have loop: "batchLoop ?env ?items False 0 [] ?w3 =
      (Inr [badResult, fallbackResult joinError, defaultResult], wB)" .
  from categorizeCall_envFirst_bad [OF requestCount_w0, of item0]
  have "fst (categorizeCall ?env item0 w0) = Inr badResult" by simp
  with batch_returned [OF loop] nB joinThrows_badResult show ?thesis by simp
qed









lemma classifyOnce_env429_error:
  "classifyOnce env429 item w = (Inl e, w1) \<Longrightarrow> e = error429"
  by (cases "provider (getModelConfig w)")
     (auto simp: classifyOnce_def callProvider_def callGroqAPI_def callGeminiAPI_def env429_def
        responseOk_def orElse_def Let_def error429_def)

lemma classifyOnce_env429_fails:
  "\<exists>e w1. classifyOnce env429 item w = (Inl e, w1) \<and> status e = Some 429 \<and>
     delaysOf (events w1) = delaysOf (events w) \<and> requestCount w1 = Suc (requestCount w)"
  by (simp add: classifyOnce_def callProvider_def callGroqAPI_def callGeminiAPI_def env429_def
      responseOk_def Let_def emit_def requestCount_def delaysOf_append)

lemma categorizeCall_env429:
  "\<exists>w1. categorizeCall env429 item w = (Inl error429, w1) \<and> requestCount w1 = requestCount w + 6"
proof -
  from retry_429_run [of "classifyOnce env429 item" 0 5 w, OF classifyOnce_env429_fails]
  obtain e w' wl where r: "retryWithBackoff (classifyOnce env429 item) 5 0 w = (Inl e, w')"
    "classifyOnce env429 item wl = (Inl e, w')" "requestCount w' = requestCount w + (5 - 0) + 1"
    by auto
  from r(2) have "e = error429" by (rule classifyOnce_env429_error)
  with r(1,3) show ?thesis by (simp add: categorizeCall_def)
qed

text \<open>
  Claim C3, at a failing input. A batch of one item whose every request is answered with
  HTTP 429 and the message \<open>Rate limit exceeded\<close>: the classification of the item fails
  after six requests, the batch aborts, and the error that it throws says
  \<open>Processed 1/1 calls\<close>, the last log line \<open>Successfully processed 1 calls before
  error\<close>. The number is the length of the result list, to which the fallback of the
  failed item has just been added; no item was processed successfully.
\<close>

theorem abort_count_includes_failed_item:
  "fst (batchCategorizeCallsWithProgress env429 [item0] False w0) =
     Inl (plainError ''Rate limit exceeded after retries. Processed 1/1 calls. Rate limit exceeded'')
   \<and> last (events (snd (batchCategorizeCallsWithProgress env429 [item0] False w0))) =
       Log ''   Successfully processed 1 calls before error.'' Info
   \<and> requestCount (snd (batchCategorizeCallsWithProgress env429 [item0] False w0)) = 6
   \<and> fst (categorizeCall env429 item0 w0) = Inl error429"
proof -
  let ?w3 = "loopStart [item0] w0"
  from categorizeCall_env429 [of "[item0] ! 0" "emit (progressMsg 0 (length [item0])) Progress ?w3"]
  obtain w1 where c: "categorizeCall env429 ([item0] ! 0)
      (emit (progressMsg 0 (length [item0])) Progress ?w3) = (Inl error429, w1)"
    and n1: "requestCount w1 = requestCount (emit (progressMsg 0 (length [item0])) Progress ?w3) + 6"
    by blast
  let ?w2 = "emit ''Critical rate limit error. Stopping batch processing.'' Error
                (notify False (0 + 1) (length [item0])
                  (emit (''   Call '' @ showNat (0 + 1) @ '' marked as uncategorized due to error'')
                     Warning
                    (emit ''   Using fallback categorization for this call...'' Warning
                      (emit (''   Error processing call '' @ showNat (0 + 1) @ '': ''
                             @ message error429)
                         Error w1))))"
  have n2: "requestCount ?w2 = requestCount w1"
    by (simp only: requestCount_emit requestCount_notify)
  have st: "batchStep env429 [item0] False 0 [] ?w3 =
           (Inl (plainError (''Rate limit exceeded after retries. Processed ''
                   @ showNat (Suc (length ([] :: categorizationResult list))) @ ''/''
                   @ showNat (length [item0]) @ '' calls. '' @ message error429)),
            emit (''   Successfully processed ''
                  @ showNat (Suc (length ([] :: categorizationResult list)))
                  @ '' calls before error.'') Info ?w2)"
    by (simp only: batchStep_caught [OF c] catchBlock_fatal [OF fatal_error429])
  have loop: "batchLoop env429 [item0] False 0 [] ?w3 =
           (Inl (plainError (''Rate limit exceeded after retries. Processed ''
                   @ showNat (Suc (length ([] :: categorizationResult list))) @ ''/''
                   @ showNat (length [item0]) @ '' calls. '' @ message error429)),
            emit (''   Successfully processed ''
                  @ showNat (Suc (length ([] :: categorizationResult list)))
                  @ '' calls before error.'') Info ?w2)"
    by (rule batchLoop_abort [OF _ st]) simp
  have b: "batchCategorizeCallsWithProgress env429 [item0] False w0 =
      (Inl (plainError ''Rate limit exceeded after retries. Processed 1/1 calls. Rate limit exceeded''),
       emit ''   Successfully processed 1 calls before error.'' Info ?w2)"
    using batch_aborted [OF loop] by (simp add: showNat_1 error429_def)
  from n1 n2 have n: "requestCount ?w2 = 6"
    by (simp add: requestCount_emit requestCount_loopStart requestCount_w0)
  from categorizeCall_env429 [of item0 w0] have "fst (categorizeCall env429 item0 w0) = Inl error429"
    by auto
  with b n show ?thesis by (simp add: events_emit requestCount_emit)
qed

section \<open>Properties of the stream consumer\<close>

lemma splitOn_not_Nil: "splitOn d s \<noteq> []"
  by (induction s) (auto split: list.splits)

lemma splitOn_append:
  "splitOn d (a @ x) = butlast (splitOn d a) @ splitOn d (last (splitOn d a) @ x)"
proof (induction a)
  case Nil
  show ?case by simp
next
  case (Cons c a)
  show ?case
  proof (cases "c = d")
    case True
    with Cons show ?thesis by (simp add: splitOn_not_Nil)
  next
    case False
    obtain y ys where s: "splitOn d a = y # ys"
      using splitOn_not_Nil [of d a] by (cases "splitOn d a") auto
    show ?thesis
    proof (cases ys)
      case Nil
      with False s Cons show ?thesis by (simp split: list.splits)
    next
      case (Cons y' ys')
      with False s Cons.IH show ?thesis by (simp split: list.splits)
    qed
  qed
qed

lemma splitOn_no_separator: "d \<notin> set s \<Longrightarrow> splitOn d s = [s]"
  by (induction s) auto

lemma last_splitOn_no_separator: "d \<notin> set (last (splitOn d s))"
proof (induction s)
  case Nil
  show ?case by simp
next
  case (Cons c s)
  then show ?case by (auto simp: splitOn_not_Nil split: list.splits)
qed

lemma handleStreamData_buffer:
  "handleStreamData data (st\<lparr>buffer := b\<rparr>) =
   (fst (handleStreamData data st), (snd (handleStreamData data st))\<lparr>buffer := b\<rparr>)"
  by (simp add: handleStreamData_def Let_def)

lemma processLine_buffer:
  "processLine parse (st\<lparr>buffer := b\<rparr>) line = (processLine parse st line)\<lparr>buffer := b\<rparr>"
  by (simp add: processLine_def Let_def handleStreamData_buffer split: option.splits)

lemma foldl_processLine_buffer:
  "foldl (processLine parse) (st\<lparr>buffer := b\<rparr>) ls = (foldl (processLine parse) st ls)\<lparr>buffer := b\<rparr>"
  by (induction ls arbitrary: st) (simp_all add: processLine_buffer)

lemma buffer_handleStreamData: "buffer (snd (handleStreamData data st)) = buffer st"
  by (simp add: handleStreamData_def Let_def)

lemma buffer_processLine: "buffer (processLine parse st line) = buffer st"
  by (simp add: processLine_def Let_def buffer_handleStreamData split: option.splits)

lemma buffer_foldl_processLine: "buffer (foldl (processLine parse) st ls) = buffer st"
  by (induction ls arbitrary: st) (simp_all add: buffer_processLine)

lemma processLine_blank: "trim line = [] \<Longrightarrow> processLine parse st line = st"
  by (simp add: processLine_def startsWith_def)

lemma processLine_frameOf:
  "processLine parse st line = (case frameOf parse line of None \<Rightarrow> st | Some v \<Rightarrow> handle st v)"
  by (simp add: processLine_def frameOf_def handle_def Let_def split: option.splits)

lemma foldl_processLine_frames:
  "foldl (processLine parse) st ls = foldl handle st (List.map_filter (frameOf parse) ls)"
proof (induction ls arbitrary: st)
  case Nil
  show ?case by (simp add: List.map_filter_simps)
next
  case (Cons l ls)
  then show ?case
    by (cases "frameOf parse l") (simp_all add: processLine_frameOf List.map_filter_simps)
qed

lemma streamLoop_feed:
  "newline \<notin> set (buffer st) \<Longrightarrow>
   streamLoop parse (feed chunks) st =
   Completed ((foldl (processLine parse) st (splitOn newline (buffer st @ concat chunks)))
                \<lparr>buffer := last (splitOn newline (buffer st @ concat chunks))\<rparr>)"
proof (induction chunks arbitrary: st)
  case Nil
  have one: "splitOn newline (buffer st) = [buffer st]"
    using Nil by (rule splitOn_no_separator)
  have "foldl (processLine parse) st [buffer st] = processLine parse st (buffer st)" by simp
  moreover have "(processLine parse st (buffer st))\<lparr>buffer := buffer st\<rparr> = processLine parse st (buffer st)"
    using buffer_processLine [of parse st "buffer st"] by (metis (full_types) consumer.surjective consumer.update_convs(1))
  ultimately show ?case
    by (simp add: feed_def one processLine_blank)
next
  case (Cons c chunks)
  let ?lines = "splitOn newline (buffer st @ c)"
  let ?st1 = "foldl (processLine parse) (st\<lparr>buffer := last ?lines\<rparr>) (butlast ?lines)"
  have b1: "buffer ?st1 = last ?lines" by (simp add: buffer_foldl_processLine)
  then have nl: "newline \<notin> set (buffer ?st1)" by (simp add: last_splitOn_no_separator)
  have step: "streamLoop parse (feed (c # chunks)) st = streamLoop parse (feed chunks) ?st1"
    by (simp add: feed_def Let_def)
  have split: "splitOn newline (buffer st @ concat (c # chunks)) =
               butlast ?lines @ splitOn newline (last ?lines @ concat chunks)"
    using splitOn_append [of newline "buffer st @ c" "concat chunks"] by simp
  have "streamLoop parse (feed chunks) ?st1 =
        Completed ((foldl (processLine parse) ?st1 (splitOn newline (last ?lines @ concat chunks)))
                \<lparr>buffer := last (splitOn newline (last ?lines @ concat chunks))\<rparr>)"
    using Cons.IH [OF nl] by (simp only: b1)
  also have "foldl (processLine parse) ?st1 (splitOn newline (last ?lines @ concat chunks)) =
        (foldl (processLine parse) st (splitOn newline (buffer st @ concat (c # chunks))))
          \<lparr>buffer := last ?lines\<rparr>"
    by (simp only: split foldl_append foldl_processLine_buffer)
  also have "last (splitOn newline (last ?lines @ concat chunks)) =
        last (splitOn newline (buffer st @ concat (c # chunks)))"
    by (simp only: split last_appendR [OF splitOn_not_Nil])
  finally show ?case using step by simp
qed

text \<open>
  Claim C8. Whatever the chunks in which the stream arrives, the consumer ends in the
  state that handling, in order and once each, the frames of the lines of the whole text
  gives: a frame split over two or more chunks is put together in the buffer and handled
  as if it had come in one piece; a line whose payload does not parse is no frame and is
  passed over without ending the loop; and the last line, which no line feed ends, is
  handled when the stream closes. So the outcome is the same as for the whole text in a
  single chunk.
\<close>

theorem stream_frames_reassembled:
  "streamLoop parse (feed chunks) initialConsumer =
     Completed ((foldl handle initialConsumer
                   (List.map_filter (frameOf parse) (splitOn newline (concat chunks))))
                \<lparr>buffer := last (splitOn newline (concat chunks))\<rparr>)
   \<and> streamLoop parse (feed chunks) initialConsumer =
     streamLoop parse (feed [concat chunks]) initialConsumer"
proof -
  have nl: "newline \<notin> set (buffer initialConsumer)" by (simp add: initialConsumer_def)
  have b: "buffer initialConsumer = []" by (simp add: initialConsumer_def)
  have 1: "streamLoop parse (feed cs) initialConsumer =
     Completed ((foldl handle initialConsumer
                   (List.map_filter (frameOf parse) (splitOn newline (concat cs))))
                \<lparr>buffer := last (splitOn newline (concat cs))\<rparr>)" for cs
    using streamLoop_feed [OF nl, of parse cs]
    by (simp add: b foldl_processLine_frames)
  from 1 [of chunks] 1 [of "[concat chunks]"] show ?thesis by simp
qed

lemma exampleChunks_lines:
  "splitOn newline (concat exampleChunks) = [''data: {A}'', [], ''data: oops'', ''data: {B}'']"
  by (simp add: exampleChunks_def newline_def)

lemma exampleChunks_frames:
  "List.map_filter (frameOf parseExample) [''data: {A}'', [], ''data: oops'', ''data: {B}''] =
     [JObject [(''message'', JString ''hi'')],
      JObject [(''success'', JBool True), (''data'', JString ''d'')]]"
  by (simp add: List.map_filter_simps frameOf_def parseExample_def trim_def isSpace_def startsWith_def)

theorem stream_frames_reassembled_witness:
  "streamLoop parseExample (feed exampleChunks) initialConsumer =
     Completed \<lparr>buffer = ''data: {B}'',
                result = Some (JObject [(''success'', JBool True), (''data'', JString ''d'')]),
                logs = [\<lparr>le_message = JString ''hi'', le_type = JString ''info''\<rparr>]\<rparr>"
proof -
  from stream_frames_reassembled [of parseExample exampleChunks]
  have "streamLoop parseExample (feed exampleChunks) initialConsumer =
     Completed ((foldl handle initialConsumer
                   [JObject [(''message'', JString ''hi'')],
                    JObject [(''success'', JBool True), (''data'', JString ''d'')]])
                \<lparr>buffer := last [''data: {A}'', [], ''data: oops'', ''data: {B}'']\<rparr>)"
    by (simp only: exampleChunks_lines exampleChunks_frames)
  then show ?thesis
    by (simp add: handle_def handleStreamData_def getProp_def truthy_def initialConsumer_def Let_def)
qed

section \<open>Runs that differ only in what the pipeline does not read\<close>




lemma sameRun_requestCount: "sameRun w w' \<Longrightarrow> requestCount w = requestCount w'"
  by (simp add: sameRun_def requestCount_def)














section \<open>Cancellation\<close>







lemma requestCount_append_logs:
  "length (filter isRequest (es @ [Log a s])) = length (filter isRequest es)"
  by simp









end
